theory Spec2Isabelle
  imports Main "HOL-Library.Log_Nat"
begin

section \<open>Python values used by audio.py\<close>

subsection \<open>Exceptions\<close>

text \<open>
  An exception is its class and its message (what \<open>str(e)\<close> gives, which the script
  interpolates into its messages). Only subclasses of \<open>Exception\<close> are modelled: every
  handler of the script is \<open>except Exception\<close> or \<open>except RuntimeError\<close>.
\<close>

datatype exn_class = ValueError | OverflowError | KeyError | RuntimeError | OSError | OtherException

datatype pyexn = PyExn exn_class string

fun exn_str :: "pyexn \<Rightarrow> string" where
  "exn_str (PyExn c msg) = msg"

fun exn_cls :: "pyexn \<Rightarrow> exn_class" where
  "exn_cls (PyExn c msg) = c"

subsection \<open>Floats\<close>

text \<open>
  A Python float is an IEEE 754 binary64 value: a finite double, an infinity or NaN. A
  finite double is carried as the rational number it denotes (the sign of zero is not
  kept: no operation of the script tells \<open>-0.0\<close> from \<open>0.0\<close>).
\<close>

datatype pyfloat = Finite rat | PosInf | NegInf | NaN

fun is_finite :: "pyfloat \<Rightarrow> bool" where
  "is_finite (Finite q) = True"
| "is_finite PosInf = False"
| "is_finite NegInf = False"
| "is_finite NaN = False"

text \<open>
  \<open>binexp q\<close> is the binary exponent of a non-zero rational: the \<open>e\<close> with
  \<open>2^e \<le> |q| < 2^(e+1)\<close>. The spacing of the doubles around \<open>q\<close> is \<open>2^(e - 52)\<close>,
  and \<open>2^-1074\<close> in the subnormal range.
\<close>

definition binexp :: "rat \<Rightarrow> int" where
  "binexp q = (let a = \<bar>q\<bar> in
     if 1 \<le> a then bitlen \<lfloor>a\<rfloor> - 1 else - bitlen (\<lceil>1 / a\<rceil> - 1))"

definition ulp_exp :: "rat \<Rightarrow> int" where
  "ulp_exp q = max (binexp q - 52) (- 1074)"

text \<open>Rounding to the nearest integer, ties to the even one: Python's \<open>round(x)\<close>.\<close>

definition round_half_even :: "rat \<Rightarrow> int" where
  "round_half_even x = (let f = \<lfloor>x\<rfloor>; d = x - of_int f in
     if d < 1 / 2 then f else if 1 / 2 < d then f + 1 else if even f then f else f + 1)"

text \<open>
  \<open>fl64 q\<close> is the double nearest to \<open>q\<close> (ties to even): the rounding every float
  operation and every float literal applies to its exact result. Overflow to infinity is
  not modelled: the values the script rounds are a literal, the integer part of a double,
  a difference below one in magnitude and that difference times 1000, none of which
  leaves the range of the doubles (this is proved among the properties).
\<close>

definition fl64 :: "rat \<Rightarrow> rat" where
  "fl64 q = (if q = 0 then 0 else
     let u = power_int 2 (ulp_exp q) in of_int (round_half_even (q / u)) * u)"

text \<open>The rationals that are doubles: rounding leaves them as they are, and they are in range.\<close>

definition is_double :: "rat \<Rightarrow> bool" where
  "is_double q = (fl64 q = q \<and> \<bar>q\<bar> < 2 ^ 1024)"

text \<open>A decimal literal of the source denotes the double nearest to it.\<close>

definition float_lit :: "rat \<Rightarrow> pyfloat" where
  "float_lit q = Finite (fl64 q)"

text \<open>\<open>int(x)\<close> on a finite float truncates towards zero.\<close>

definition trunc :: "rat \<Rightarrow> int" where
  "trunc q = (if 0 \<le> q then \<lfloor>q\<rfloor> else \<lceil>q\<rceil>)"

definition int_py :: "pyfloat \<Rightarrow> pyexn + int" where
  "int_py x = (case x of
      Finite q \<Rightarrow> Inr (trunc q)
    | PosInf \<Rightarrow> Inl (PyExn OverflowError ''cannot convert float infinity to integer'')
    | NegInf \<Rightarrow> Inl (PyExn OverflowError ''cannot convert float infinity to integer'')
    | NaN \<Rightarrow> Inl (PyExn ValueError ''cannot convert float NaN to integer''))"

definition float_of_int :: "int \<Rightarrow> rat" where
  "float_of_int n = fl64 (of_int n)"

definition fsub :: "rat \<Rightarrow> rat \<Rightarrow> rat" where
  "fsub a b = fl64 (a - b)"

definition fmul :: "rat \<Rightarrow> rat \<Rightarrow> rat" where
  "fmul a b = fl64 (a * b)"

subsection \<open>Integers as text\<close>

definition digit_char :: "nat \<Rightarrow> char" where
  "digit_char d = char_of (48 + d)"

fun str_nat :: "nat \<Rightarrow> string" where
  "str_nat n = (if n < 10 then [digit_char n] else str_nat (n div 10) @ [digit_char (n mod 10)])"

declare str_nat.simps [simp del]

text \<open>\<open>str(i)\<close> for an integer.\<close>

definition str_int :: "int \<Rightarrow> string" where
  "str_int i = (if i < 0 then ''-'' @ str_nat (nat (- i)) else str_nat (nat i))"

text \<open>
  The format specification \<open>0wd\<close> (as in \<open>f"{h:02d}"\<close>): the sign first, then zeros up to
  the width \<open>w\<close>, then the digits. The width is a minimum, longer numbers are not cut.
\<close>

definition fmt_d :: "nat \<Rightarrow> int \<Rightarrow> string" where
  "fmt_d w i = (let ds = str_nat (nat \<bar>i\<bar>); sg = (if i < 0 then ''-'' else '''')
     in sg @ replicate (w - length sg - length ds) CHR ''0'' @ ds)"

section \<open>The helpers of audio.py\<close>

subsection \<open>format_timestamp\<close>

text \<open>
  \<^verbatim>\<open>ms = int(round((seconds - int(seconds)) * 1000))\<close>: \<open>int(seconds)\<close> raises on NaN and
  on the infinities before anything else is computed (the last three equations, with the
  exceptions of \<open>int_py\<close>); on a finite float the integer is
  converted back to a float, subtracted, and the difference multiplied by \<open>1000.0\<close>, each
  operation rounding to the nearest double. The quotients and remainders of
  \<open>total\<close> are Python's floor division and modulo, which \<open>div\<close> and \<open>mod\<close> on \<open>int\<close> are.
\<close>

definition millis :: "rat \<Rightarrow> int" where
  "millis q = round_half_even (fmul (fsub q (float_of_int (trunc q))) (float_of_int 1000))"

fun format_timestamp :: "pyfloat \<Rightarrow> pyexn + string" where
  "format_timestamp (Finite q) =
     (let ms = millis q;
          total_s = trunc q;
          s = total_s mod 60;
          m = (total_s div 60) mod 60;
          h = total_s div 3600
      in Inr (fmt_d 2 h @ '':'' @ fmt_d 2 m @ '':'' @ fmt_d 2 s @ '','' @ fmt_d 3 ms))"
| "format_timestamp NaN = Inl (PyExn ValueError ''cannot convert float NaN to integer'')"
| "format_timestamp PosInf = Inl (PyExn OverflowError ''cannot convert float infinity to integer'')"
| "format_timestamp NegInf = Inl (PyExn OverflowError ''cannot convert float infinity to integer'')"

subsection \<open>The shape of a subtitle timestamp\<close>

text \<open>
  \<open>HH:MM:SS,mmm\<close>: twelve characters, digits but for the two colons and the comma.
  \<open>dec_value\<close> reads a string of digits as a number.
\<close>

definition is_digit :: "char \<Rightarrow> bool" where
  "is_digit c = (48 \<le> (of_char c :: nat) \<and> (of_char c :: nat) \<le> 57)"

definition dec_value :: "string \<Rightarrow> nat" where
  "dec_value s = foldl (\<lambda>acc c. 10 * acc + (of_char c - 48)) 0 s"

definition srt_shape :: "string \<Rightarrow> bool" where
  "srt_shape s = (length s = 12 \<and>
     list_all is_digit (take 2 s) \<and> s ! 2 = CHR '':'' \<and>
     list_all is_digit (take 2 (drop 3 s)) \<and> s ! 5 = CHR '':'' \<and>
     list_all is_digit (take 2 (drop 6 s)) \<and> s ! 8 = CHR '','' \<and>
     list_all is_digit (drop 9 s))"

subsection \<open>Strings\<close>

text \<open>
  A string is a list of characters with codes below 256. \<open>str.strip()\<close> removes the
  characters for which \<open>str.isspace\<close> holds from both ends; among the code points below
  256 these are 9 to 13, 28 to 32, 133 and 160.
\<close>

definition isspace :: "char \<Rightarrow> bool" where
  "isspace c = ((of_char c :: nat) \<in> set [9, 10, 11, 12, 13, 28, 29, 30, 31, 32, 133, 160])"

definition strip :: "string \<Rightarrow> string" where
  "strip s = rev (dropWhile isspace (rev (dropWhile isspace s)))"

text \<open>\<open>sep.join(xs)\<close>.\<close>

fun str_join :: "string \<Rightarrow> string list \<Rightarrow> string" where
  "str_join sep [] = []"
| "str_join sep [x] = x"
| "str_join sep (x # y # ys) = x @ sep @ str_join sep (y # ys)"

subsection \<open>segments_to_srt\<close>

text \<open>
  A segment is the dictionary Whisper returns for it. The keys \<open>start\<close> and \<open>end\<close> are
  read with \<open>seg["start"]\<close> and \<open>seg["end"]\<close>: every segment of Whisper has them, as the
  Segment of the specification has, and they are floats. \<open>text\<close> is read with
  \<open>seg.get("text", "")\<close>, so it may be absent (\<open>None\<close>).
\<close>

record segment =
  seg_start :: pyfloat
  seg_end :: pyfloat
  seg_text :: "string option"

definition get_text :: "string option \<Rightarrow> string" where
  "get_text t = (case t of None \<Rightarrow> [] | Some s \<Rightarrow> s)"

text \<open>
  The loop \<^verbatim>\<open>for idx, seg in enumerate(segments, start=1)\<close>, with the list \<open>lines\<close> it
  appends to. An exception of \<open>format_timestamp\<close> leaves the loop and the function.
\<close>

fun srt_loop :: "segment list \<Rightarrow> int \<Rightarrow> string list \<Rightarrow> pyexn + string list" where
  "srt_loop [] idx lines = Inr lines"
| "srt_loop (seg # segments) idx lines =
     (case format_timestamp (seg_start seg) of
        Inl e \<Rightarrow> Inl e
      | Inr start \<Rightarrow>
          (case format_timestamp (seg_end seg) of
             Inl e \<Rightarrow> Inl e
           | Inr end_s \<Rightarrow>
               (let txt = strip (get_text (seg_text seg))
                in srt_loop segments (idx + 1)
                     (lines @ [str_int idx] @ [start @ '' --> '' @ end_s] @ [txt] @ [[]]))))"

definition segments_to_srt :: "segment list \<Rightarrow> pyexn + string" where
  "segments_to_srt segments = (case srt_loop segments 1 [] of
      Inl e \<Rightarrow> Inl e
    | Inr lines \<Rightarrow> Inr (str_join [CHR 0x0A] lines))"

section \<open>The script\<close>

subsection \<open>The state a run works on, and what the libraries answer\<close>

text \<open>
  Streamlit runs audio.py from top to bottom on every interaction. A run works on the
  process environment, the files on disk, the cache Streamlit keeps for
  \<open>load_whisper_model\<close>, and the page it writes to. \<open>loads\<close> is a history variable: the
  arguments of the calls of \<open>whisper.load_model\<close> made so far. A model handle is the
  identity of the model object.
\<close>

datatype ui_event =
    StWrite string
  | StInfo string
  | StError string
  | StWarning string
  | StSuccess string
  | StSubheader string
  | StTextArea string string
  | StMarkdown string
  | StSpinner string
  | StButton string
  | StDownloadButton string string string string
  | StDivider
  | Print string

record world =
  environ :: "string \<rightharpoonup> string"
  files :: "string set"
  cache :: "string \<rightharpoonup> nat"
  loads :: "string list"
  ui :: "ui_event list"

definition say :: "ui_event \<Rightarrow> world \<Rightarrow> world" where
  "say ev w = w\<lparr>ui := ui w @ [ev]\<rparr>"

text \<open>What the sidebar widgets return, and the uploaded file.\<close>

record settings =
  model_size :: string
  show_segments :: bool
  enable_txt_download :: bool
  enable_srt_download :: bool

record upload =
  up_name :: string
  up_buffer :: "nat list"

record whisper_result =
  res_text :: "string option"
  res_segments :: "segment list option"

text \<open>The arguments of a call of \<open>model.transcribe\<close>.\<close>

record transcribe_call =
  tc_path :: string
  tc_language :: string
  tc_temperature :: pyfloat

text \<open>
  The answers of the libraries and of the operating system during one run:
  \<open>shutil.which\<close> (a function of the environment), \<open>os.pathsep\<close>, \<open>Path(name).suffix\<close>
  and \<open>.stem\<close>, \<open>tempfile.NamedTemporaryFile\<close> (the path of the file it creates),
  the write, flush and close of the payload, \<open>whisper.load_model\<close>, the button,
  \<open>model.transcribe\<close>, \<open>st.download_button\<close> with the encoding of its data, \<open>os.remove\<close>,
  and the two numbers the script only prints (the file size and the elapsed time, as
  formatted).
\<close>

record externals =
  which :: "(string \<rightharpoonup> string) \<Rightarrow> string \<Rightarrow> string option"
  pathsep :: string
  path_suffix :: "string \<Rightarrow> string"
  path_stem :: "string \<Rightarrow> string"
  named_temporary_file :: "string \<Rightarrow> pyexn + string"
  write_payload :: "nat list \<Rightarrow> pyexn option"
  load_model :: "string \<Rightarrow> pyexn + nat"
  transcribe_btn :: bool
  transcribe :: "nat \<Rightarrow> transcribe_call \<Rightarrow> pyexn + whisper_result"
  download_button :: "string \<Rightarrow> pyexn option"
  remove_error :: "string \<Rightarrow> pyexn option"
  file_size_mb :: string
  elapsed :: string

text \<open>How a run ends: at the last line, at \<open>st.stop()\<close>, or with an exception nothing caught.\<close>

datatype outcome = Finished | Stopped | Uncaught pyexn

subsection \<open>The decoder check\<close>

definition is_ffmpeg_available :: "externals \<Rightarrow> world \<Rightarrow> bool" where
  "is_ffmpeg_available ext w = (which ext (environ w) ''ffmpeg'' \<noteq> None)"

definition ffmpeg_dir :: string where
  "ffmpeg_dir = ''C:'' @ [CHR 0x5C] @ ''ffmpeg-8.0-full_build'' @ [CHR 0x5C] @ ''bin''"

text \<open>\<open>os.environ["PATH"]\<close> raises \<open>KeyError\<close> when the variable is not set.\<close>

definition set_ffmpeg_path :: "externals \<Rightarrow> world \<Rightarrow> pyexn + world" where
  "set_ffmpeg_path ext w =
     (if \<not> is_ffmpeg_available ext w then
        (case environ w ''PATH'' of
           None \<Rightarrow> Inl (PyExn KeyError ([CHR 0x27] @ ''PATH'' @ [CHR 0x27]))
         | Some old \<Rightarrow> Inr (w\<lparr>environ := (environ w)(''PATH'' \<mapsto> ffmpeg_dir @ pathsep ext @ old)\<rparr>))
      else Inr w)"

text \<open>
  Lines 73 to 81. \<open>if not ffmpeg_path\<close> holds for \<open>None\<close> and for the empty string. The
  messages of the script are written in ASCII here: the pictographs that open some of
  them are left out, and its long dash and its arrow are \<open>-\<close> and \<open>->\<close>.
\<close>

definition ffmpeg_check :: "externals \<Rightarrow> world \<Rightarrow> pyexn + (string option \<times> world)" where
  "ffmpeg_check ext w =
     (case set_ffmpeg_path ext w of
        Inl e \<Rightarrow> Inl e
      | Inr w1 \<Rightarrow>
          (let ffmpeg_path = which ext (environ w1) ''ffmpeg''
           in if ffmpeg_path = None \<or> ffmpeg_path = Some []
              then Inr (ffmpeg_path, say (StWarning
                (''ffmpeg not detected. Whisper may fail to decode audio/video. '' @
                 ''Please check your ffmpeg installation.'')) w1)
              else Inr (ffmpeg_path, say (StSuccess (''ffmpeg found: '' @ get_text ffmpeg_path)) w1)))"

subsection \<open>The model registry\<close>

text \<open>
  Modelled from the spec: the decorator \<open>st.cache_resource\<close> belongs to Streamlit, not to
  the repository. Section 4.2 of the specification: the first call for a variant performs
  the load and stores the handle, every later call for the same variant returns the same
  handle without reloading, and nothing is ever evicted; section 7: a failed load does not
  poison the registry, the same variant is tried again on a later request. So the
  decorated function looks the argument up in the cache, runs the body on a miss, and
  stores the result only when the body returns.

  The body is from the source: it calls \<open>whisper.load_model\<close>, and on an exception it
  writes an error to the page and raises the exception again.
\<close>

definition load_whisper_model :: "externals \<Rightarrow> string \<Rightarrow> world \<Rightarrow> (pyexn + nat) \<times> world" where
  "load_whisper_model ext size_name w =
     (case cache w size_name of
        Some model \<Rightarrow> (Inr model, w)
      | None \<Rightarrow>
          (let w1 = w\<lparr>loads := loads w @ [size_name]\<rparr>
           in case load_model ext size_name of
                Inr model \<Rightarrow> (Inr model, w1\<lparr>cache := (cache w1)(size_name \<mapsto> model)\<rparr>)
              | Inl e \<Rightarrow>
                  (Inl e, say (StError (''Failed to load Whisper model '' @ [CHR 0x27] @ size_name @
                     [CHR 0x27] @ '': '' @ exn_str e)) w1)))"

subsection \<open>The main flow\<close>

text \<open>
  \<open>os.remove\<close> raises when the file is not there or cannot be removed;
  \<^verbatim>\<open>try: os.remove(temp_path)\<close> \<^verbatim>\<open>except Exception: pass\<close> drops the exception.
\<close>

definition os_remove :: "externals \<Rightarrow> string \<Rightarrow> world \<Rightarrow> pyexn + world" where
  "os_remove ext p w =
     (if p \<notin> files w then Inl (PyExn OSError ''No such file or directory'')
      else (case remove_error ext p of
              Some e \<Rightarrow> Inl e
            | None \<Rightarrow> Inr (w\<lparr>files := files w - {p}\<rparr>)))"

definition try_remove :: "externals \<Rightarrow> string \<Rightarrow> world \<Rightarrow> world" where
  "try_remove ext p w = (case os_remove ext p w of Inl e \<Rightarrow> w | Inr w1 \<Rightarrow> w1)"

text \<open>
  Lines 95 to 107: the temporary file is created outside the \<open>try\<close>; a failure of the
  write, the flush or the close is reported and raised again.
\<close>

definition temp_suffix :: "externals \<Rightarrow> upload \<Rightarrow> string" where
  "temp_suffix ext uploaded =
     (if path_suffix ext (up_name uploaded) = [] then ''.tmp'' else path_suffix ext (up_name uploaded))"

definition stage :: "externals \<Rightarrow> upload \<Rightarrow> world \<Rightarrow> (pyexn + string) \<times> world" where
  "stage ext uploaded w =
     (let w1 = say (StWrite (''**File:** '' @ up_name uploaded @ '' - **'' @ file_size_mb ext @ '' MB**'')) w;
          suffix = temp_suffix ext uploaded
      in case named_temporary_file ext suffix of
           Inl e \<Rightarrow> (Inl e, w1)
         | Inr temp_path \<Rightarrow>
             (let w2 = w1\<lparr>files := insert temp_path (files w1)\<rparr>
              in case write_payload ext (up_buffer uploaded) of
                   Some e \<Rightarrow> (Inl e, say (StError (''Failed to save uploaded file to disk: '' @ exn_str e)) w2)
                 | None \<Rightarrow> (Inr temp_path, w2)))"

text \<open>Lines 109 to 116: \<open>None\<close> stands for \<open>st.stop()\<close>.\<close>

definition obtain_model :: "externals \<Rightarrow> settings \<Rightarrow> string \<Rightarrow> world \<Rightarrow> nat option \<times> world" where
  "obtain_model ext st temp_path w =
     (case load_whisper_model ext (model_size st)
             (say (StInfo ''File saved to temporary path. Loading model...'') w) of
        (Inl e, w1) \<Rightarrow> (None, try_remove ext temp_path w1)
      | (Inr model, w1) \<Rightarrow> (Some model, w1))"

text \<open>Lines 121 to 129: \<open>None\<close> is the \<open>result = None\<close> of the two handlers.\<close>

definition transcribe_args :: "string \<Rightarrow> transcribe_call" where
  "transcribe_args temp_path = \<lparr>tc_path = temp_path, tc_language = ''en'', tc_temperature = float_lit 0\<rparr>"

definition run_transcribe :: "externals \<Rightarrow> nat \<Rightarrow> string \<Rightarrow> world \<Rightarrow> whisper_result option \<times> world" where
  "run_transcribe ext model temp_path w =
     (let w1 = say (StSpinner ''Transcribing - this can take a while depending on model and hardware...'') w
      in case transcribe ext model (transcribe_args temp_path) of
           Inr result \<Rightarrow> (Some result, w1)
         | Inl e \<Rightarrow>
             (if exn_cls e = RuntimeError
              then (None, say (StError (''Runtime error during transcription: '' @ exn_str e)) w1)
              else (None, say (StError (''An error occurred during transcription: '' @ exn_str e)) w1)))"

text \<open>
  \<open>str(datetime.timedelta(seconds=n))\<close>: the constructor raises \<open>OverflowError\<close> when
  the number of days is beyond 999999999 in magnitude, with another message when the
  number of days does not fit a C \<open>int\<close>.
\<close>

definition timedelta_str :: "int \<Rightarrow> pyexn + string" where
  "timedelta_str n =
     (let days = n div 86400; secs = n mod 86400
      in if days < - 2147483648 \<or> 2147483647 < days
         then Inl (PyExn OverflowError ''Python int too large to convert to C int'')
         else if days < - 999999999 \<or> 999999999 < days
         then Inl (PyExn OverflowError (''days='' @ str_int days @ ''; must have magnitude <= 999999999''))
         else
           (let hms = str_int (secs div 3600) @ '':'' @ fmt_d 2 (secs div 60 mod 60) @ '':'' @
                      fmt_d 2 (secs mod 60)
            in if days = 0 then Inr hms
               else Inr (str_int days @ '' day'' @ (if \<bar>days\<bar> \<noteq> 1 then ''s'' else []) @ '', '' @ hms)))"

definition coarse_time :: "pyfloat \<Rightarrow> pyexn + string" where
  "coarse_time x = (case int_py x of Inl e \<Rightarrow> Inl e | Inr n \<Rightarrow> timedelta_str n)"

text \<open>Lines 144 to 147, the loop over the segments; no handler is around it.\<close>

fun show_segments_loop :: "segment list \<Rightarrow> world \<Rightarrow> pyexn option \<times> world" where
  "show_segments_loop [] w = (None, w)"
| "show_segments_loop (seg # segments) w =
     (case coarse_time (seg_start seg) of
        Inl e \<Rightarrow> (Some e, w)
      | Inr start \<Rightarrow>
          (case coarse_time (seg_end seg) of
             Inl e \<Rightarrow> (Some e, w)
           | Inr end_s \<Rightarrow>
               show_segments_loop segments
                 (say (StMarkdown (''**'' @ start @ '' -> '' @ end_s @ ''**  '' @ [CHR 0x0A] @
                    strip (get_text (seg_text seg)))) w)))"

text \<open>Lines 149 to 158 and 160 to 170: each download is built inside its own \<open>try\<close>.\<close>

definition txt_download :: "externals \<Rightarrow> upload \<Rightarrow> string \<Rightarrow> world \<Rightarrow> world" where
  "txt_download ext uploaded transcript_text w =
     (case download_button ext ''Download TXT'' of
        None \<Rightarrow> say (StDownloadButton ''Download TXT'' transcript_text
                  (path_stem ext (up_name uploaded) @ ''.txt'') ''text/plain'') w
      | Some e \<Rightarrow> say (StError (''Failed to create TXT download: '' @ exn_str e)) w)"

definition srt_download :: "externals \<Rightarrow> upload \<Rightarrow> segment list \<Rightarrow> world \<Rightarrow> world" where
  "srt_download ext uploaded segments w =
     (case segments_to_srt segments of
        Inl e \<Rightarrow> say (StError (''Failed to create SRT download: '' @ exn_str e)) w
      | Inr srt_content \<Rightarrow>
          (case download_button ext ''Download SRT'' of
             None \<Rightarrow> say (StDownloadButton ''Download SRT'' srt_content
                       (path_stem ext (up_name uploaded) @ ''.srt'') ''text/plain'') w
           | Some e \<Rightarrow> say (StError (''Failed to create SRT download: '' @ exn_str e)) w))"

text \<open>Lines 135 to 170, the branch of a result that is not \<open>None\<close>.\<close>

definition show_result ::
  "externals \<Rightarrow> settings \<Rightarrow> upload \<Rightarrow> whisper_result \<Rightarrow> world \<Rightarrow> pyexn option \<times> world" where
  "show_result ext st uploaded result w =
     (let w1 = say (StSuccess (''Transcription finished in '' @ elapsed ext @ '' seconds.'')) w;
          transcript_text = strip (get_text (res_text result));
          segments = (case res_segments result of None \<Rightarrow> [] | Some segs \<Rightarrow> segs);
          w2 = say (StTextArea ''Transcript'' transcript_text)
                 (say (StSubheader ''Full Transcript (English)'') w1)
      in case (if show_segments st \<and> segments \<noteq> []
               then show_segments_loop segments (say (StSubheader ''Segments'') w2)
               else (None, w2)) of
           (Some e, w3) \<Rightarrow> (Some e, w3)
         | (None, w3) \<Rightarrow>
             (let w4 = (if enable_txt_download st then txt_download ext uploaded transcript_text w3 else w3);
                  w5 = (if enable_srt_download st \<and> segments \<noteq> []
                        then srt_download ext uploaded segments w4 else w4)
              in (None, w5)))"

text \<open>Lines 118 to 173: what follows the loading of the model.\<close>

definition transcription :: "externals \<Rightarrow> settings \<Rightarrow> upload \<Rightarrow> nat \<Rightarrow> string \<Rightarrow> world \<Rightarrow> outcome \<times> world" where
  "transcription ext st uploaded model temp_path w =
     (let w1 = say (StButton ''Start Transcription (English)'') w
      in if transcribe_btn ext then
           (case run_transcribe ext model temp_path w1 of
              (None, w2) \<Rightarrow>
                (Finished, try_remove ext temp_path
                   (say (StWarning ''Transcription failed. Check ffmpeg installation and model compatibility.'') w2))
            | (Some result, w2) \<Rightarrow>
                (case show_result ext st uploaded result w2 of
                   (Some e, w3) \<Rightarrow> (Uncaught e, w3)
                 | (None, w3) \<Rightarrow> (Finished, try_remove ext temp_path w3)))
         else (Finished, w1))"

text \<open>Lines 94 to 173.\<close>

definition main_flow :: "externals \<Rightarrow> settings \<Rightarrow> upload \<Rightarrow> world \<Rightarrow> outcome \<times> world" where
  "main_flow ext st uploaded w =
     (case stage ext uploaded w of
        (Inl e, w1) \<Rightarrow> (Uncaught e, w1)
      | (Inr temp_path, w1) \<Rightarrow>
          (case obtain_model ext st temp_path w1 of
             (None, w2) \<Rightarrow> (Stopped, w2)
           | (Some model, w2) \<Rightarrow> transcription ext st uploaded model temp_path w2))"

text \<open>Lines 176 to 183.\<close>

definition footer :: "string option \<Rightarrow> world \<Rightarrow> world" where
  "footer ffmpeg_path w =
     say (Print (''ffmpeg path detected: '' @ (case ffmpeg_path of None \<Rightarrow> ''None'' | Some p \<Rightarrow> p)))
       (say (StMarkdown
          (''**Tips:**'' @ [CHR 0x0A, CHR 0x0A] @
           ''- If transcription is very slow on CPU, try `tiny` or `base` for testing.'' @ [CHR 0x0A] @
           ''- For higher accuracy on long/complex audio, use `small` or `medium` and a machine with a GPU.'' @ [CHR 0x0A] @
           ''- Make sure `ffmpeg -version` works in your terminal before running the app.'' @ [CHR 0x0A]))
          (say StDivider w))"

text \<open>The run from the decoder check on (lines 73 to 183).\<close>

definition script :: "externals \<Rightarrow> settings \<Rightarrow> upload option \<Rightarrow> world \<Rightarrow> outcome \<times> world" where
  "script ext st uploaded w =
     (case ffmpeg_check ext w of
        Inl e \<Rightarrow> (Uncaught e, w)
      | Inr (ffmpeg_path, w1) \<Rightarrow>
          (case uploaded of
             None \<Rightarrow>
               (Finished, footer ffmpeg_path (say StDivider (say (StInfo
                  (''Upload a file to begin transcription. For long files prefer '' @
                   [CHR 0x27] @ ''small'' @ [CHR 0x27] @ '' or '' @ [CHR 0x27] @ ''medium'' @ [CHR 0x27] @
                   '' model and GPU.'')) w1)))
           | Some up \<Rightarrow>
               (case main_flow ext st up w1 of
                  (Finished, w2) \<Rightarrow> (Finished, footer ffmpeg_path w2)
                | (Stopped, w2) \<Rightarrow> (Stopped, w2)
                | (Uncaught e, w2) \<Rightarrow> (Uncaught e, w2))))"

section \<open>The subtitle document of the specification\<close>

text \<open>
  The specification's words for the renderer: for the segment at position \<open>i\<close> (counted
  from 1) four lines, the index, the time range \<open>start --> end\<close> written with the timestamp
  codec, the trimmed text and an empty line; the document is all lines joined by
  newlines. \<open>timestamp_text\<close> is the string \<open>format_timestamp\<close> returns.
\<close>

definition timestamp_text :: "pyfloat \<Rightarrow> string" where
  "timestamp_text x = (case format_timestamp x of Inr s \<Rightarrow> s | Inl e \<Rightarrow> [])"

definition srt_block :: "int \<Rightarrow> segment \<Rightarrow> string list" where
  "srt_block i seg =
     [str_int i, timestamp_text (seg_start seg) @ '' --> '' @ timestamp_text (seg_end seg),
      strip (get_text (seg_text seg)), []]"

fun srt_blocks :: "int \<Rightarrow> segment list \<Rightarrow> string list list" where
  "srt_blocks i [] = []"
| "srt_blocks i (seg # segments) = srt_block i seg # srt_blocks (i + 1) segments"

definition finite_times :: "segment \<Rightarrow> bool" where
  "finite_times seg = (is_finite (seg_start seg) \<and> is_finite (seg_end seg))"

section \<open>Notions the properties are stated with\<close>

text \<open>
  What \<open>load_whisper_model\<close> will answer in a world: the cached handle, or else what
  \<open>whisper.load_model\<close> answers.
\<close>

definition model_answer :: "externals \<Rightarrow> settings \<Rightarrow> world \<Rightarrow> pyexn + nat" where
  "model_answer ext st w =
     (case cache w (model_size st) of Some model \<Rightarrow> Inr model | None \<Rightarrow> load_model ext (model_size st))"

text \<open>
  A segment the loop of lines 144 to 147 can show: \<open>int\<close> and \<open>timedelta\<close> accept its
  start and its end. The display raises when it is switched on and some segment of the
  result cannot be shown.
\<close>

definition displayable :: "segment \<Rightarrow> bool" where
  "displayable seg = (\<not> isl (coarse_time (seg_start seg)) \<and> \<not> isl (coarse_time (seg_end seg)))"

definition display_raises :: "settings \<Rightarrow> whisper_result \<Rightarrow> bool" where
  "display_raises st result =
     (show_segments st \<and> \<not> list_all displayable (case res_segments result of None \<Rightarrow> [] | Some segs \<Rightarrow> segs))"

section \<open>Sample inputs\<close>

text \<open>
  A fresh process (nothing cached, nothing on disk, no variable set) and answers of the
  libraries in a run where everything works: no decoder on the path, the upload
  \<open>talk.mp3\<close> staged as \<open>/tmp/tmp1.mp3\<close>, the model loaded as object 1, the button
  pressed, and a transcript with one segment.
\<close>

definition fresh_world :: world where
  "fresh_world = \<lparr>environ = Map.empty, files = {}, cache = Map.empty, loads = [], ui = []\<rparr>"

definition sample_upload :: upload where
  "sample_upload = \<lparr>up_name = ''talk.mp3'', up_buffer = [73, 68, 51]\<rparr>"

definition sample_settings :: settings where
  "sample_settings = \<lparr>model_size = ''base'', show_segments = True,
     enable_txt_download = True, enable_srt_download = True\<rparr>"

definition sample_result :: whisper_result where
  "sample_result = \<lparr>res_text = Some '' Hello there. '',
     res_segments = Some [\<lparr>seg_start = float_lit 0, seg_end = float_lit (3 / 2),
                           seg_text = Some '' Hello there.''\<rparr>]\<rparr>"

definition sample_externals :: externals where
  "sample_externals = \<lparr>
     which = (\<lambda>env cmd. None),
     pathsep = '';'',
     path_suffix = (\<lambda>name. ''.mp3''),
     path_stem = (\<lambda>name. ''talk''),
     named_temporary_file = (\<lambda>suffix. Inr (''/tmp/tmp1'' @ suffix)),
     write_payload = (\<lambda>payload. None),
     load_model = (\<lambda>name. Inr 1),
     transcribe_btn = True,
     transcribe = (\<lambda>model call. Inr sample_result),
     download_button = (\<lambda>label. None),
     remove_error = (\<lambda>path. None),
     file_size_mb = ''0.0'',
     elapsed = ''1.0''\<rparr>"

text \<open>
  Runs in which one thing goes wrong: the disk is full when the payload is written, the
  model cannot be loaded, the engine fails on the file, the engine returns a segment
  whose start is not a number, and the staged file cannot be removed.
\<close>

definition full_disk :: externals where
  "full_disk = sample_externals\<lparr>write_payload := (\<lambda>payload. Some (PyExn OSError ''No space left on device''))\<rparr>"

definition no_model :: externals where
  "no_model = sample_externals\<lparr>load_model := (\<lambda>name. Inl (PyExn RuntimeError ''out of memory''))\<rparr>"

definition bad_audio :: externals where
  "bad_audio = sample_externals\<lparr>transcribe := (\<lambda>model call. Inl (PyExn RuntimeError ''Failed to load audio''))\<rparr>"

definition nan_result :: whisper_result where
  "nan_result = \<lparr>res_text = Some ''Hello'',
     res_segments = Some [\<lparr>seg_start = NaN, seg_end = float_lit 1, seg_text = Some ''Hello''\<rparr>]\<rparr>"

definition nan_times :: externals where
  "nan_times = sample_externals\<lparr>transcribe := (\<lambda>model call. Inr nan_result)\<rparr>"

definition locked_file :: externals where
  "locked_file = bad_audio\<lparr>remove_error := (\<lambda>path. Some (PyExn OSError ''Permission denied''))\<rparr>"

text \<open>
  The two runs of one transcription. Streamlit runs the script when the file is uploaded,
  with the button not pressed, and runs it again when the button is clicked; in the
  second run \<open>tempfile.NamedTemporaryFile\<close> creates a new file, \<open>/tmp/tmp2.mp3\<close>.
\<close>

definition upload_run :: externals where
  "upload_run = sample_externals\<lparr>transcribe_btn := False\<rparr>"

definition click_run :: externals where
  "click_run = sample_externals\<lparr>named_temporary_file := (\<lambda>suffix. Inr (''/tmp/tmp2'' @ suffix))\<rparr>"

section \<open>Properties\<close>

subsection \<open>Digits and formatted integers\<close>

lemma of_char_digit_char: "d < 10 \<Longrightarrow> (of_char (digit_char d) :: nat) = 48 + d"
  by (simp add: digit_char_def)

lemma is_digit_digit_char: "d < 10 \<Longrightarrow> is_digit (digit_char d)"
  by (simp add: is_digit_def of_char_digit_char)

lemma str_nat_1: "n < 10 \<Longrightarrow> str_nat n = [digit_char n]"
  by (simp add: str_nat.simps)

lemma str_nat_2: "10 \<le> n \<Longrightarrow> n < 100 \<Longrightarrow> str_nat n = [digit_char (n div 10), digit_char (n mod 10)]"
  by (subst str_nat.simps) (simp add: str_nat_1)

lemma str_nat_3: "100 \<le> n \<Longrightarrow> n < 1000 \<Longrightarrow>
  str_nat n = [digit_char (n div 100), digit_char (n div 10 mod 10), digit_char (n mod 10)]"
  by (subst str_nat.simps) (simp add: str_nat_2 div_mult2_eq[symmetric])

lemma digit_char_0: "digit_char 0 = CHR ''0''"
  by code_simp

lemma fmt_d_2:
  assumes "0 \<le> i" "i < 100"
  shows "fmt_d 2 i = [digit_char (nat i div 10), digit_char (nat i mod 10)]"
proof (cases "nat i < 10")
  case True
  then show ?thesis using assms by (simp add: fmt_d_def str_nat_1 digit_char_0 numeral_2_eq_2)
next
  case False
  then show ?thesis using assms by (simp add: fmt_d_def str_nat_2)
qed

lemma fmt_d_3: "0 \<le> i \<Longrightarrow> i < 1000 \<Longrightarrow>
  fmt_d 3 i = [digit_char (nat i div 100), digit_char (nat i div 10 mod 10), digit_char (nat i mod 10)]"
proof -
  assume a: "0 \<le> i" "i < 1000"
  consider "nat i < 10" | "10 \<le> nat i" "nat i < 100" | "100 \<le> nat i" "nat i < 1000"
    using a by linarith
  then show ?thesis
    using a by cases (simp_all add: fmt_d_def str_nat_1 str_nat_2 str_nat_3 digit_char_0 numeral_2_eq_2)
qed

lemma dec_value_2: "a < 10 \<Longrightarrow> b < 10 \<Longrightarrow> dec_value [digit_char a, digit_char b] = 10 * a + b"
  by (simp add: dec_value_def of_char_digit_char)

lemma dec_value_3: "a < 10 \<Longrightarrow> b < 10 \<Longrightarrow> c < 10 \<Longrightarrow>
  dec_value [digit_char a, digit_char b, digit_char c] = 100 * a + 10 * b + c"
  by (simp add: dec_value_def of_char_digit_char)

lemma dec3: "(ms::nat) = 100 * (ms div 100) + 10 * (ms div 10 mod 10) + ms mod 10"
proof -
  have "ms div 10 = 10 * (ms div 10 div 10) + ms div 10 mod 10" by simp
  moreover have "ms div 10 div 10 = ms div 100" by (simp add: div_mult2_eq [symmetric])
  moreover have "ms = 10 * (ms div 10) + ms mod 10" by simp
  ultimately show ?thesis by linarith
qed

subsection \<open>Rounding to a double\<close>

text \<open>
  Rounding is within half a unit in the last place, keeps the sign, and leaves every
  multiple of the local spacing as it is.
\<close>

lemma round_half_even_of_int: "round_half_even (of_int m) = m"
  by (simp add: round_half_even_def)

lemma round_half_even_diff: "\<bar>of_int (round_half_even x) - x\<bar> \<le> 1 / 2"
proof -
  have "of_int \<lfloor>x\<rfloor> \<le> x" "x < of_int \<lfloor>x\<rfloor> + 1" by linarith+
  then show ?thesis
    by (auto simp: round_half_even_def Let_def)
qed

lemma round_half_even_nonneg: "0 \<le> x \<Longrightarrow> 0 \<le> round_half_even x"
  by (auto simp: round_half_even_def Let_def)

lemma bitlen_mono: "a \<le> b \<Longrightarrow> bitlen a \<le> bitlen b"
  by (simp add: bitlen_def floorlog_mono)

lemma bitlen_pos: "1 \<le> a \<Longrightarrow> 1 \<le> bitlen a"
  by (simp add: bitlen_alt_def)

lemma binexp_mono:
  assumes "a \<noteq> 0" "\<bar>a\<bar> \<le> \<bar>b\<bar>"
  shows "binexp a \<le> binexp b"
proof -
  consider "1 \<le> \<bar>a\<bar>" | "\<bar>a\<bar> < 1" "1 \<le> \<bar>b\<bar>" | "\<bar>a\<bar> < 1" "\<bar>b\<bar> < 1" by linarith
  then show ?thesis
  proof cases
    case 1
    then have "1 \<le> \<bar>b\<bar>" using assms by linarith
    moreover have "\<lfloor>\<bar>a\<bar>\<rfloor> \<le> \<lfloor>\<bar>b\<bar>\<rfloor>" using assms by (simp add: floor_mono)
    then have "bitlen \<lfloor>\<bar>a\<bar>\<rfloor> \<le> bitlen \<lfloor>\<bar>b\<bar>\<rfloor>" by (rule bitlen_mono)
    ultimately show ?thesis using 1 by (simp add: binexp_def)
  next
    case 2
    have "1 \<le> \<lfloor>\<bar>b\<bar>\<rfloor>" using 2 by (simp add: le_floor_iff)
    then have "1 \<le> bitlen \<lfloor>\<bar>b\<bar>\<rfloor>" by (rule bitlen_pos)
    moreover have "0 \<le> bitlen (\<lceil>1 / \<bar>a\<bar>\<rceil> - 1)" by (rule bitlen_nonneg)
    ultimately show ?thesis using 2 by (simp add: binexp_def)
  next
    case 3
    have "0 < \<bar>a\<bar>" using assms by simp
    then have "1 / \<bar>b\<bar> \<le> 1 / \<bar>a\<bar>" using assms by (simp add: frac_le)
    then have "\<lceil>1 / \<bar>b\<bar>\<rceil> - 1 \<le> \<lceil>1 / \<bar>a\<bar>\<rceil> - 1"
      using ceiling_mono [of "1 / \<bar>b\<bar>" "1 / \<bar>a\<bar>"] by linarith
    then have "bitlen (\<lceil>1 / \<bar>b\<bar>\<rceil> - 1) \<le> bitlen (\<lceil>1 / \<bar>a\<bar>\<rceil> - 1)" by (rule bitlen_mono)
    then show ?thesis using 3 by (simp add: binexp_def)
  qed
qed

lemma ulp_exp_mono: "a \<noteq> 0 \<Longrightarrow> \<bar>a\<bar> \<le> \<bar>b\<bar> \<Longrightarrow> ulp_exp a \<le> ulp_exp b"
  using binexp_mono [of a b] by (simp add: ulp_exp_def)

lemma fl64_exact:
  assumes "q = of_int m * power_int 2 p" "ulp_exp q \<le> p"
  shows "fl64 q = q"
proof (cases "q = 0")
  case True
  then show ?thesis by (simp add: fl64_def)
next
  case False
  define u :: rat where "u = power_int 2 (ulp_exp q)"
  define k where "k = nat (p - ulp_exp q)"
  have u: "0 < u" by (simp add: u_def)
  have p: "p = ulp_exp q + int k" using assms(2) by (simp add: k_def)
  have "power_int (2::rat) p = u * 2 ^ k"
    unfolding u_def by (subst p) (simp add: power_int_add)
  then have q: "q = of_int (m * 2 ^ k) * u"
    using assms(1) by simp
  then have "q / u = of_int (m * 2 ^ k)"
    using u by simp
  then have "round_half_even (q / u) = m * 2 ^ k"
    by (simp only: round_half_even_of_int)
  then have "fl64 q = of_int (m * 2 ^ k) * u"
    using False by (simp add: fl64_def Let_def u_def)
  then show ?thesis using q by simp
qed

lemma fl64_grid: "\<exists>m. fl64 q = of_int m * power_int 2 (ulp_exp q)"
  by (cases "q = 0") (auto simp: fl64_def Let_def intro: exI[of _ 0])

lemma fl64_diff: "\<bar>fl64 q - q\<bar> \<le> power_int 2 (ulp_exp q) / 2"
proof (cases "q = 0")
  case True
  then show ?thesis by (simp add: fl64_def)
next
  case False
  define u :: rat where "u = power_int 2 (ulp_exp q)"
  define r :: rat where "r = of_int (round_half_even (q / u))"
  have u: "0 < u" by (simp add: u_def)
  have h: "\<bar>r - q / u\<bar> \<le> 1 / 2" unfolding r_def by (rule round_half_even_diff)
  have "fl64 q = r * u"
    using False by (simp add: fl64_def Let_def u_def r_def)
  then have "fl64 q - q = (r - q / u) * u"
    using u by (simp add: field_simps)
  then have "\<bar>fl64 q - q\<bar> = \<bar>r - q / u\<bar> * u"
    using u by (simp add: abs_mult)
  also have "\<dots> \<le> 1 / 2 * u"
    using u h by (intro mult_right_mono) simp_all
  finally show ?thesis
    by (simp add: u_def)
qed

lemma fl64_nonneg: "0 \<le> q \<Longrightarrow> 0 \<le> fl64 q"
  by (simp add: fl64_def Let_def round_half_even_nonneg)

text \<open>
  For a double \<open>q\<close> the two roundings inside \<open>seconds - int(seconds)\<close> change nothing:
  the integer part and the fractional part of a double are doubles. So on a double the
  only rounding of \<open>format_timestamp\<close> is that of the product with 1000, a number below
  1000 in magnitude, where the doubles are \<open>2^-43\<close> apart or closer.
\<close>

lemma trunc_cases:
  obtains "0 \<le> q" "trunc q = \<lfloor>q\<rfloor>" "0 \<le> \<lfloor>q\<rfloor>" "of_int \<lfloor>q\<rfloor> \<le> q" "q < of_int \<lfloor>q\<rfloor> + 1"
  | "q < 0" "trunc q = \<lceil>q\<rceil>" "\<lceil>q\<rceil> \<le> 0" "q \<le> of_int \<lceil>q\<rceil>" "of_int \<lceil>q\<rceil> < q + 1"
proof (cases "0 \<le> q")
  case True
  moreover have "of_int \<lfloor>q\<rfloor> \<le> q" "q < of_int \<lfloor>q\<rfloor> + 1" by linarith+
  ultimately show ?thesis using that(1) by (simp add: trunc_def)
next
  case False
  moreover have "q \<le> of_int \<lceil>q\<rceil>" "of_int \<lceil>q\<rceil> < q + 1" by linarith+
  moreover have "\<lceil>q\<rceil> \<le> 0" using False by (simp add: ceiling_le_iff)
  ultimately show ?thesis using that(2) by (simp add: trunc_def)
qed

lemma trunc_abs_le: "\<bar>of_int (trunc q) :: rat\<bar> \<le> \<bar>q\<bar>"
  by (cases q rule: trunc_cases) simp_all

lemma trunc_frac_abs_le: "\<bar>q - of_int (trunc q)\<bar> \<le> \<bar>q\<bar>"
  by (cases q rule: trunc_cases) simp_all

lemma trunc_frac_lt_1: "\<bar>q - of_int (trunc q)\<bar> < 1"
  by (cases q rule: trunc_cases) simp_all

lemma trunc_of_int: "trunc (of_int n) = n"
  by (simp add: trunc_def)

lemma fl64_of_int_small:
  assumes "ulp_exp (of_int n) \<le> 0" shows "fl64 (of_int n) = of_int n"
  by (rule fl64_exact [where m = n and p = 0]) (use assms in simp_all)

lemma double_trunc_exact:
  assumes "fl64 q = q"
  shows "fl64 (of_int (trunc q)) = of_int (trunc q)"
    and "fl64 (q - of_int (trunc q)) = q - of_int (trunc q)"
proof -
  define p where "p = ulp_exp q"
  obtain m where m: "q = of_int m * power_int 2 p"
    using fl64_grid [of q] assms by (auto simp: p_def)
  define t where "t = trunc q"
  define d where "d = q - of_int t"
  have both: "fl64 (of_int t) = of_int t \<and> fl64 d = d"
  proof (cases "0 \<le> p")
    case True
    then have "q = of_int (m * 2 ^ nat p)"
      using m by (simp add: power_int_nonneg_exp)
    then have "of_int t = q" unfolding t_def by (metis trunc_of_int)
    then show ?thesis using assms by (simp add: d_def fl64_def)
  next
    case False
    have t: "fl64 (of_int t) = of_int t"
    proof (cases "t = 0")
      case True
      then show ?thesis by (simp add: fl64_def)
    next
      case f: False
      have "ulp_exp (of_int t) \<le> p"
        unfolding p_def t_def
        by (rule ulp_exp_mono) (use f trunc_abs_le [of q] in \<open>simp_all add: t_def\<close>)
      then show ?thesis using False by (intro fl64_of_int_small) simp
    qed
    have dfl: "fl64 d = d"
    proof (cases "d = 0")
      case True
      then show ?thesis by (simp add: fl64_def)
    next
      case f: False
      have le: "ulp_exp d \<le> p"
        unfolding p_def d_def t_def
        by (rule ulp_exp_mono) (use f trunc_frac_abs_le [of q] in \<open>simp_all add: d_def t_def\<close>)
      have "power_int (2::rat) p * 2 ^ nat (- p) = 1"
        using False by (simp add: power_int_def power_one_over)
      then have "of_int t = of_int (t * 2 ^ nat (- p)) * power_int (2::rat) p"
        by (simp add: mult.assoc mult.commute [of "power_int 2 p"])
      then have "d = of_int (m - t * 2 ^ nat (- p)) * power_int 2 p"
        unfolding d_def using m by (simp add: algebra_simps)
      then show ?thesis using le by (rule fl64_exact)
    qed
    from t dfl show ?thesis ..
  qed
  from both show "fl64 (of_int (trunc q)) = of_int (trunc q)" by (simp add: t_def)
  from both show "fl64 (q - of_int (trunc q)) = q - of_int (trunc q)" by (simp add: d_def t_def)
qed

lemma ulp_exp_1000: "ulp_exp 1000 = - 43"
  by code_simp

lemma fl64_1000: "fl64 1000 = 1000"
  by code_simp

lemma fl64_diff_1000:
  assumes "\<bar>y\<bar> \<le> 1000" shows "\<bar>fl64 y - y\<bar> \<le> 1 / 2 ^ 44"
proof (cases "y = 0")
  case True
  then show ?thesis by (simp add: fl64_def)
next
  case False
  have "ulp_exp y \<le> - 43"
    using ulp_exp_mono [of y 1000] False assms by (simp add: ulp_exp_1000)
  then have "power_int (2::rat) (ulp_exp y) \<le> power_int 2 (- 43)"
    by (intro power_int_increasing) simp_all
  then have "power_int (2::rat) (ulp_exp y) / 2 \<le> 1 / 2 ^ 44"
    by (simp add: power_int_minus_divide)
  with fl64_diff [of y] show ?thesis by linarith
qed

lemma millis_double:
  assumes "fl64 q = q"
  shows "millis q = round_half_even (fl64 ((q - of_int (trunc q)) * 1000))"
  using double_trunc_exact [OF assms]
  by (simp add: millis_def fmul_def fsub_def float_of_int_def fl64_1000)

text \<open>
  So nothing \<open>format_timestamp\<close> computes on a double leaves the range of the doubles:
  the integer part is a double, the difference is below one and the product is at most
  1001 in magnitude.
\<close>

lemma intermediate_values_in_range:
  assumes "is_double q"
  shows "is_double (float_of_int (trunc q))"
    and "\<bar>fsub q (float_of_int (trunc q))\<bar> < 1"
    and "\<bar>fmul (fsub q (float_of_int (trunc q))) (float_of_int 1000)\<bar> \<le> 1001"
proof -
  have d: "fl64 q = q" and r: "\<bar>q\<bar> < 2 ^ 1024" using assms by (simp_all add: is_double_def)
  note ex = double_trunc_exact [OF d]
  have "\<bar>of_int (trunc q) :: rat\<bar> < 2 ^ 1024"
    using trunc_abs_le [of q] r by linarith
  then show "is_double (float_of_int (trunc q))"
    by (simp add: is_double_def float_of_int_def ex(1))
  show "\<bar>fsub q (float_of_int (trunc q))\<bar> < 1"
    using trunc_frac_lt_1 [of q] by (simp add: fsub_def float_of_int_def ex)
  define y where "y = (q - of_int (trunc q)) * 1000"
  have y: "\<bar>y\<bar> \<le> 1000"
    using trunc_frac_lt_1 [of q] by (simp add: y_def abs_mult)
  then have "\<bar>fl64 y - y\<bar> \<le> 1 / 2 ^ 44" by (rule fl64_diff_1000)
  moreover have "(1::rat) / 2 ^ 44 \<le> 1" by simp
  ultimately have "\<bar>fl64 y\<bar> \<le> 1001" using y by linarith
  then show "\<bar>fmul (fsub q (float_of_int (trunc q))) (float_of_int 1000)\<bar> \<le> 1001"
    by (simp add: fmul_def fsub_def float_of_int_def ex fl64_1000 y_def)
qed

subsection \<open>format_timestamp\<close>

lemma format_timestamp_digits:
  assumes "0 \<le> trunc q" "trunc q < 360000" "0 \<le> millis q" "millis q < 1000"
  shows "format_timestamp (Finite q) = Inr
    [digit_char (nat (trunc q div 3600) div 10), digit_char (nat (trunc q div 3600) mod 10), CHR '':'',
     digit_char (nat (trunc q div 60 mod 60) div 10), digit_char (nat (trunc q div 60 mod 60) mod 10), CHR '':'',
     digit_char (nat (trunc q mod 60) div 10), digit_char (nat (trunc q mod 60) mod 10), CHR '','',
     digit_char (nat (millis q) div 100), digit_char (nat (millis q) div 10 mod 10),
     digit_char (nat (millis q) mod 10)]"
proof -
  have "trunc q div 3600 \<le> 359999 div 3600"
    by (rule zdiv_mono1) (use assms in simp_all)
  then have h: "0 \<le> trunc q div 3600" "trunc q div 3600 < 100"
    using assms(1) by (simp_all add: pos_imp_zdiv_nonneg_iff)
  have m: "0 \<le> trunc q div 60 mod 60" "trunc q div 60 mod 60 < 100"
    using pos_mod_bound [of 60 "trunc q div 60"] by simp_all
  have s: "0 \<le> trunc q mod 60" "trunc q mod 60 < 100"
    using pos_mod_bound [of 60 "trunc q"] by simp_all
  show ?thesis
    by (simp add: Let_def fmt_d_2 [OF h] fmt_d_2 [OF m] fmt_d_2 [OF s] fmt_d_3 [OF assms(3,4)])
qed

lemma millis_nonneg:
  assumes "fl64 q = q" "0 \<le> q" shows "0 \<le> millis q"
proof -
  have "0 \<le> q - of_int (trunc q)"
    by (cases q rule: trunc_cases) (use assms in simp_all)
  then have "0 \<le> fl64 ((q - of_int (trunc q)) * 1000)"
    by (intro fl64_nonneg) simp
  then show ?thesis
    unfolding millis_double [OF assms(1)] by (rule round_half_even_nonneg)
qed

lemma millis_close:
  assumes "fl64 q = q"
  shows "\<bar>of_int (millis q) - (q - of_int (trunc q)) * 1000\<bar> \<le> 1 / 2 + 1 / 2 ^ 44"
proof -
  define y where "y = (q - of_int (trunc q)) * 1000"
  have "\<bar>y\<bar> \<le> 1000"
    using trunc_frac_lt_1 [of q] by (simp add: y_def abs_mult)
  then have "\<bar>fl64 y - y\<bar> \<le> 1 / 2 ^ 44" by (rule fl64_diff_1000)
  moreover have "\<bar>of_int (round_half_even (fl64 y)) - fl64 y\<bar> \<le> 1 / 2"
    by (rule round_half_even_diff)
  ultimately have "\<bar>of_int (round_half_even (fl64 y)) - y\<bar> \<le> 1 / 2 + 1 / 2 ^ 44"
    by linarith
  then show ?thesis
    unfolding millis_double [OF assms] y_def .
qed

text \<open>
  Claim C1. A float whose fractional part rounds up to 1000 milliseconds should carry
  into the seconds (the specification asks for \<open>00:01:00,000\<close>). The code has no carry:
  at \<open>59.9996\<close> the fractional part times 1000 is \<open>999.6000000000009\<close>, which rounds to
  \<open>1000\<close> and is printed as four digits. At the literal \<open>59.9995\<close> itself the nearest
  double lies below \<open>59.9995\<close>, the product is \<open>999.4999999999976\<close> and the result is
  \<open>00:00:59,999\<close>, again not the carried value.
\<close>

theorem format_timestamp_no_carry:
  "format_timestamp (float_lit (599996 / 10000)) = Inr ''00:00:59,1000'' \<and>
   format_timestamp (float_lit (599995 / 10000)) = Inr ''00:00:59,999''"
  by code_simp

text \<open>
  Claim C7, as amended. \<open>format_timestamp(0.0)\<close> is \<open>00:00:00,000\<close> and
  \<open>format_timestamp(3661.5)\<close> is \<open>01:01:01,500\<close>. For every double \<open>q\<close> from 0 up to, but
  not including, 360000 seconds (100 hours) whose rounded milliseconds are below 1000, the
  result has the shape \<open>HH:MM:SS,mmm\<close>; its two-digit fields read as the hours, minutes
  and seconds of the whole seconds \<open>\<lfloor>q\<rfloor>\<close>, and its three-digit field reads as the
  fractional part times 1000, computed as a double and rounded to the nearest integer
  (ties to even). That number is within \<open>1/2 + 2^-44\<close> of the exact product.
\<close>

theorem format_timestamp_encoding:
  "format_timestamp (float_lit 0) = Inr ''00:00:00,000'' \<and>
   format_timestamp (float_lit (36615 / 10)) = Inr ''01:01:01,500'' \<and>
   (\<forall>q. is_double q \<and> 0 \<le> q \<and> q < 360000 \<and> millis q < 1000 \<longrightarrow>
      (\<exists>s. format_timestamp (Finite q) = Inr s \<and> srt_shape s \<and>
        int (dec_value (take 2 s)) = \<lfloor>q\<rfloor> div 3600 \<and>
        int (dec_value (take 2 (drop 3 s))) = \<lfloor>q\<rfloor> div 60 mod 60 \<and>
        int (dec_value (take 2 (drop 6 s))) = \<lfloor>q\<rfloor> mod 60 \<and>
        int (dec_value (drop 9 s)) = round_half_even (fl64 ((q - of_int \<lfloor>q\<rfloor>) * 1000)) \<and>
        \<bar>of_int (int (dec_value (drop 9 s))) - (q - of_int \<lfloor>q\<rfloor>) * 1000\<bar> \<le> 1 / 2 + 1 / 2 ^ 44))"
proof (intro conjI allI impI)
  show "format_timestamp (float_lit 0) = Inr ''00:00:00,000''" by code_simp
  show "format_timestamp (float_lit (36615 / 10)) = Inr ''01:01:01,500''" by code_simp
next
  fix q assume a: "is_double q \<and> 0 \<le> q \<and> q < 360000 \<and> millis q < 1000"
  then have d: "fl64 q = q" by (simp add: is_double_def)
  have t: "trunc q = \<lfloor>q\<rfloor>" using a by (simp add: trunc_def)
  have t0: "0 \<le> trunc q" "trunc q < 360000"
    using a by (simp_all add: t floor_less_iff)
  have ms0: "0 \<le> millis q" using d a by (simp add: millis_nonneg)
  have ms1: "millis q < 1000" using a by simp
  define hh where "hh = nat (trunc q div 3600)"
  define mm where "mm = nat (trunc q div 60 mod 60)"
  define ss where "ss = nat (trunc q mod 60)"
  define ms where "ms = nat (millis q)"
  have "trunc q div 3600 \<le> 359999 div 3600"
    by (rule zdiv_mono1) (use t0 in simp_all)
  then have "trunc q div 3600 < 100" by simp
  then have hh: "hh < 100" by (simp add: hh_def nat_less_iff)
  have mm: "mm < 100" using pos_mod_bound [of 60 "trunc q div 60"] by (simp add: mm_def nat_less_iff)
  have ss: "ss < 100" using pos_mod_bound [of 60 "trunc q"] by (simp add: ss_def nat_less_iff)
  have ms: "ms < 1000" using ms0 ms1 by (simp add: ms_def nat_less_iff)
  have dg: "\<And>n::nat. n < 100 \<Longrightarrow> n div 10 < 10" "\<And>n::nat. n mod 10 < 10"
    "\<And>n::nat. n < 1000 \<Longrightarrow> n div 100 < 10" "\<And>n::nat. n div 10 mod 10 < 10"
    by simp_all
  let ?s = "[digit_char (hh div 10), digit_char (hh mod 10), CHR '':'',
     digit_char (mm div 10), digit_char (mm mod 10), CHR '':'',
     digit_char (ss div 10), digit_char (ss mod 10), CHR '','',
     digit_char (ms div 100), digit_char (ms div 10 mod 10), digit_char (ms mod 10)]"
  have eq: "format_timestamp (Finite q) = Inr ?s"
    unfolding hh_def mm_def ss_def ms_def by (rule format_timestamp_digits [OF t0 ms0 ms1])
  have shape: "srt_shape ?s"
    using hh mm ss ms by (simp add: srt_shape_def is_digit_digit_char dg)
  have v1: "int (dec_value (take 2 ?s)) = \<lfloor>q\<rfloor> div 3600"
    using hh t0 by (simp add: dec_value_2 dg hh_def t [symmetric] div_int_pos_iff)
  have v2: "int (dec_value (take 2 (drop 3 ?s))) = \<lfloor>q\<rfloor> div 60 mod 60"
    using mm by (simp add: dec_value_2 dg mm_def t [symmetric])
  have v3: "int (dec_value (take 2 (drop 6 ?s))) = \<lfloor>q\<rfloor> mod 60"
    using ss by (simp add: dec_value_2 dg ss_def t [symmetric])
  have "ms = 100 * (ms div 100) + 10 * (ms div 10 mod 10) + ms mod 10"
    by (rule dec3)
  then have v4: "int (dec_value (drop 9 ?s)) = millis q"
    using ms ms0 by (simp add: dec_value_3 dg ms_def [symmetric]) (simp add: ms_def)
  have v5: "int (dec_value (drop 9 ?s)) = round_half_even (fl64 ((q - of_int \<lfloor>q\<rfloor>) * 1000))"
    unfolding v4 millis_double [OF d] t ..
  have v6: "\<bar>of_int (int (dec_value (drop 9 ?s))) - (q - of_int \<lfloor>q\<rfloor>) * 1000\<bar> \<le> 1 / 2 + 1 / 2 ^ 44"
    unfolding v4 using millis_close [OF d] by (simp only: t)
  from eq shape v1 v2 v3 v5 v6
  show "\<exists>s. format_timestamp (Finite q) = Inr s \<and> srt_shape s \<and>
        int (dec_value (take 2 s)) = \<lfloor>q\<rfloor> div 3600 \<and>
        int (dec_value (take 2 (drop 3 s))) = \<lfloor>q\<rfloor> div 60 mod 60 \<and>
        int (dec_value (take 2 (drop 6 s))) = \<lfloor>q\<rfloor> mod 60 \<and>
        int (dec_value (drop 9 s)) = round_half_even (fl64 ((q - of_int \<lfloor>q\<rfloor>) * 1000)) \<and>
        \<bar>of_int (int (dec_value (drop 9 s))) - (q - of_int \<lfloor>q\<rfloor>) * 1000\<bar> \<le> 1 / 2 + 1 / 2 ^ 44"
    by blast
qed

text \<open>
  The claim as stated, for every non-negative input, fails from 100 hours on: the format
  \<open>02d\<close> is a minimum width, and 360000.0 gives thirteen characters.
\<close>

theorem format_timestamp_hundred_hours:
  "is_double 360000 \<and> (0::rat) \<le> 360000 \<and> millis 360000 < 1000 \<and>
   format_timestamp (Finite 360000) = Inr ''100:00:00,000'' \<and>
   \<not> srt_shape ''100:00:00,000''"
  by code_simp

theorem format_timestamp_encoding_witness:
  "is_double (7323 / 2) \<and> (0::rat) \<le> 7323 / 2 \<and> (7323 / 2 :: rat) < 360000 \<and> millis (7323 / 2) < 1000 \<and>
   (\<exists>s. format_timestamp (Finite (7323 / 2)) = Inr s \<and> srt_shape s \<and>
        int (dec_value (take 2 s)) = \<lfloor>7323 / 2 :: rat\<rfloor> div 3600 \<and>
        int (dec_value (take 2 (drop 3 s))) = \<lfloor>7323 / 2 :: rat\<rfloor> div 60 mod 60 \<and>
        int (dec_value (take 2 (drop 6 s))) = \<lfloor>7323 / 2 :: rat\<rfloor> mod 60 \<and>
        int (dec_value (drop 9 s)) = round_half_even (fl64 ((7323 / 2 - of_int \<lfloor>7323 / 2 :: rat\<rfloor>) * 1000)) \<and>
        \<bar>of_int (int (dec_value (drop 9 s))) - (7323 / 2 - of_int \<lfloor>7323 / 2 :: rat\<rfloor>) * (1000 :: rat)\<bar> \<le> 1 / 2 + 1 / 2 ^ 44)"
proof -
  have h1: "is_double (7323 / 2)" by code_simp
  have h2: "(0::rat) \<le> 7323 / 2" by simp
  have h3: "(7323 / 2 :: rat) < 360000" by simp
  have h4: "millis (7323 / 2) < 1000" by code_simp
  have h: "is_double (7323 / 2) \<and> (0::rat) \<le> 7323 / 2 \<and> (7323 / 2 :: rat) < 360000 \<and> millis (7323 / 2) < 1000"
    by (intro conjI h1 h2 h3 h4)
  note e = format_timestamp_encoding [THEN conjunct2, THEN conjunct2, rule_format, OF h]
  show ?thesis
    by (intro conjI h1 h2 h3 h4 e)
qed

text \<open>
  Claim C10, as amended. \<open>format_timestamp\<close> returns a string on every finite float,
  negative ones included, and raises on the three floats that are not finite; on
  \<open>-0.5\<close> the string is \<open>00:00:00,-500\<close>, which is not of the shape \<open>HH:MM:SS,mmm\<close>.
\<close>

theorem format_timestamp_total_on_finite:
  "(\<forall>x. is_finite x \<longrightarrow> (\<exists>s. format_timestamp x = Inr s)) \<and>
   (\<forall>x. \<not> is_finite x \<longrightarrow> (\<exists>e. format_timestamp x = Inl e)) \<and>
   format_timestamp (float_lit (- (1 / 2))) = Inr ''00:00:00,-500'' \<and>
   \<not> srt_shape ''00:00:00,-500''"
proof (intro conjI allI impI)
  fix x assume "is_finite x"
  then show "\<exists>s. format_timestamp x = Inr s" by (cases x) (simp_all add: Let_def)
next
  fix x assume "\<not> is_finite x"
  then show "\<exists>e. format_timestamp x = Inl e" by (cases x) simp_all
next
  show "format_timestamp (float_lit (- (1 / 2))) = Inr ''00:00:00,-500''" by code_simp
  show "\<not> srt_shape ''00:00:00,-500''" by code_simp
qed

text \<open>
  The claim as stated, total on every float, fails on NaN and on the infinities, where
  \<open>int(seconds)\<close> raises.
\<close>

theorem format_timestamp_raises_on_nan:
  "format_timestamp NaN = Inl (PyExn ValueError ''cannot convert float NaN to integer'') \<and>
   format_timestamp PosInf = Inl (PyExn OverflowError ''cannot convert float infinity to integer'')"
  by simp

theorem format_timestamp_total_on_finite_witness:
  "is_finite (float_lit (- (3 / 2))) \<and> format_timestamp (float_lit (- (3 / 2))) = Inr ''-1:59:59,-500'' \<and>
   \<not> is_finite NegInf \<and> isl (format_timestamp NegInf)"
proof -
  have f: "is_finite (float_lit (- (3 / 2)))" by (simp add: float_lit_def)
  have n: "\<not> is_finite NegInf" by simp
  from format_timestamp_total_on_finite f obtain s where "format_timestamp (float_lit (- (3 / 2))) = Inr s"
    by blast
  moreover have "format_timestamp (float_lit (- (3 / 2))) = Inr ''-1:59:59,-500''" by code_simp
  moreover from format_timestamp_total_on_finite n obtain e where "format_timestamp NegInf = Inl e"
    by blast
  ultimately show ?thesis using f by simp
qed

subsection \<open>segments_to_srt\<close>

lemma format_timestamp_finite: "is_finite x \<Longrightarrow> format_timestamp x = Inr (timestamp_text x)"
  by (cases x) (simp_all add: timestamp_text_def Let_def)

lemma srt_loop_blocks:
  "list_all finite_times segments \<Longrightarrow>
   srt_loop segments idx lines = Inr (lines @ concat (srt_blocks idx segments))"
proof (induction segments arbitrary: idx lines)
  case Nil
  then show ?case by simp
next
  case (Cons seg segments)
  then have r: "list_all finite_times segments" and "finite_times seg"
    by simp_all
  then have f: "is_finite (seg_start seg)" "is_finite (seg_end seg)"
    by (simp_all add: finite_times_def)
  show ?case
    by (simp add: format_timestamp_finite [OF f(1)] format_timestamp_finite [OF f(2)]
        Cons.IH [OF r] srt_block_def)
qed

lemma length_srt_blocks: "length (srt_blocks i segments) = length segments"
  by (induction segments arbitrary: i) simp_all

lemma nth_srt_blocks:
  "k < length segments \<Longrightarrow> srt_blocks i segments ! k = srt_block (i + int k) (segments ! k)"
proof (induction segments arbitrary: i k)
  case Nil
  then show ?case by simp
next
  case (Cons seg segments)
  show ?case
  proof (cases k)
    case 0
    then show ?thesis by simp
  next
    case (Suc j)
    then have "j < length segments" using Cons.prems by simp
    from Cons.IH [OF this, of "i + 1"] show ?thesis using Suc by (simp add: add.assoc)
  qed
qed

text \<open>
  Claim C4, as amended. The empty list gives the empty document. For every list of
  segments whose starts and ends are finite floats, the document is the newline-joined
  concatenation of one block of four lines per segment, in order: the index counted from
  1, the line \<open>start --> end\<close> of the two strings \<open>format_timestamp\<close> returns, the text
  stripped of surrounding whitespace, and an empty line.
\<close>

theorem segments_to_srt_blocks:
  "segments_to_srt [] = Inr [] \<and>
   (\<forall>segments. list_all finite_times segments \<longrightarrow>
      (\<exists>blocks. segments_to_srt segments = Inr (str_join [CHR 0x0A] (concat blocks)) \<and>
         length blocks = length segments \<and>
         (\<forall>i < length segments. \<exists>start end_s.
             format_timestamp (seg_start (segments ! i)) = Inr start \<and>
             format_timestamp (seg_end (segments ! i)) = Inr end_s \<and>
             blocks ! i = [str_int (int i + 1), start @ '' --> '' @ end_s,
                           strip (get_text (seg_text (segments ! i))), []])))"
proof (intro conjI allI impI)
  show "segments_to_srt [] = Inr []" by (simp add: segments_to_srt_def)
next
  fix segments assume fin: "list_all finite_times segments"
  let ?blocks = "srt_blocks 1 segments"
  have doc: "segments_to_srt segments = Inr (str_join [CHR 0x0A] (concat ?blocks))"
    by (simp add: segments_to_srt_def srt_loop_blocks [OF fin])
  have each: "\<exists>start end_s.
      format_timestamp (seg_start (segments ! i)) = Inr start \<and>
      format_timestamp (seg_end (segments ! i)) = Inr end_s \<and>
      ?blocks ! i = [str_int (int i + 1), start @ '' --> '' @ end_s,
                     strip (get_text (seg_text (segments ! i))), []]" if "i < length segments" for i
  proof -
    have "finite_times (segments ! i)" using fin that by (simp add: list_all_length)
    then have "format_timestamp (seg_start (segments ! i)) = Inr (timestamp_text (seg_start (segments ! i)))"
      "format_timestamp (seg_end (segments ! i)) = Inr (timestamp_text (seg_end (segments ! i)))"
      by (simp_all add: finite_times_def format_timestamp_finite)
    moreover have "?blocks ! i = srt_block (1 + int i) (segments ! i)"
      using that by (rule nth_srt_blocks)
    ultimately show ?thesis by (simp add: srt_block_def add.commute)
  qed
  show "\<exists>blocks. segments_to_srt segments = Inr (str_join [CHR 0x0A] (concat blocks)) \<and>
         length blocks = length segments \<and>
         (\<forall>i < length segments. \<exists>start end_s.
             format_timestamp (seg_start (segments ! i)) = Inr start \<and>
             format_timestamp (seg_end (segments ! i)) = Inr end_s \<and>
             blocks ! i = [str_int (int i + 1), start @ '' --> '' @ end_s,
                           strip (get_text (seg_text (segments ! i))), []])"
    using doc each length_srt_blocks [of 1 segments] by blast
qed

text \<open>
  The claim as stated, for every segment list, fails when a start or an end is not
  finite: the exception of \<open>format_timestamp\<close> leaves \<open>segments_to_srt\<close>.
\<close>

theorem segments_to_srt_infinite_end:
  "segments_to_srt [\<lparr>seg_start = float_lit 0, seg_end = PosInf, seg_text = Some ''Hello''\<rparr>] =
     Inl (PyExn OverflowError ''cannot convert float infinity to integer'')"
  by code_simp

theorem segments_to_srt_blocks_witness:
  "list_all finite_times
     [\<lparr>seg_start = float_lit 0, seg_end = float_lit (3 / 2), seg_text = Some '' Hello ''\<rparr>,
      \<lparr>seg_start = float_lit (3 / 2), seg_end = float_lit (7323 / 2), seg_text = None\<rparr>] \<and>
   segments_to_srt
     [\<lparr>seg_start = float_lit 0, seg_end = float_lit (3 / 2), seg_text = Some '' Hello ''\<rparr>,
      \<lparr>seg_start = float_lit (3 / 2), seg_end = float_lit (7323 / 2), seg_text = None\<rparr>] =
   Inr (str_join [CHR 0x0A]
     [''1'', ''00:00:00,000 --> 00:00:01,500'', ''Hello'', [],
      ''2'', ''00:00:01,500 --> 01:01:01,500'', [], []])"
proof -
  let ?segs = "[\<lparr>seg_start = float_lit 0, seg_end = float_lit (3 / 2), seg_text = Some '' Hello ''\<rparr>,
      \<lparr>seg_start = float_lit (3 / 2), seg_end = float_lit (7323 / 2), seg_text = None\<rparr>]"
  have fin: "list_all finite_times ?segs" by code_simp
  from segments_to_srt_blocks have
    "\<forall>segments. list_all finite_times segments \<longrightarrow>
      (\<exists>blocks. segments_to_srt segments = Inr (str_join [CHR 0x0A] (concat blocks)) \<and>
         length blocks = length segments \<and>
         (\<forall>i < length segments. \<exists>start end_s.
             format_timestamp (seg_start (segments ! i)) = Inr start \<and>
             format_timestamp (seg_end (segments ! i)) = Inr end_s \<and>
             blocks ! i = [str_int (int i + 1), start @ '' --> '' @ end_s,
                           strip (get_text (seg_text (segments ! i))), []]))" ..
  with fin obtain blocks where
    b: "segments_to_srt ?segs = Inr (str_join [CHR 0x0A] (concat blocks))"
       "length blocks = length ?segs"
       "\<forall>i < length ?segs. \<exists>start end_s.
             format_timestamp (seg_start (?segs ! i)) = Inr start \<and>
             format_timestamp (seg_end (?segs ! i)) = Inr end_s \<and>
             blocks ! i = [str_int (int i + 1), start @ '' --> '' @ end_s,
                           strip (get_text (seg_text (?segs ! i))), []]"
    by blast
  have t0: "format_timestamp (float_lit 0) = Inr ''00:00:00,000''" by code_simp
  have t1: "format_timestamp (float_lit (3 / 2)) = Inr ''00:00:01,500''" by code_simp
  have t2: "format_timestamp (float_lit (7323 / 2)) = Inr ''01:01:01,500''" by code_simp
  have s1: "strip '' Hello '' = ''Hello''" by code_simp
  have n1: "str_int 1 = ''1''" "str_int 2 = ''2''" by code_simp+
  from b(3) [rule_format, of 0] have "blocks ! 0 = [''1'', ''00:00:00,000 --> 00:00:01,500'', ''Hello'', []]"
    by (auto simp: t0 t1 s1 n1 get_text_def)
  moreover from b(3) [rule_format, of 1] have "blocks ! 1 = [''2'', ''00:00:01,500 --> 01:01:01,500'', [], []]"
    by (auto simp: t1 t2 n1 get_text_def strip_def)
  moreover from b(2) obtain x y where "blocks = [x, y]"
    by (cases blocks; cases "tl blocks") auto
  ultimately have "blocks = [[''1'', ''00:00:00,000 --> 00:00:01,500'', ''Hello'', []],
                   [''2'', ''00:00:01,500 --> 01:01:01,500'', [], []]]"
    by simp
  with b(1) fin show ?thesis by simp
qed

subsection \<open>The decoder path\<close>

text \<open>
  Where \<open>set_ffmpeg_path\<close> returns. When the decoder is discoverable, the world is
  unchanged. When it is not and \<open>PATH\<close> is set, the only change is that \<open>PATH\<close>
  becomes the known directory, the separator and the old value; nothing looks at whether
  that directory exists.
\<close>

lemma set_ffmpeg_path_effect:
  "(which ext (environ w) ''ffmpeg'' \<noteq> None \<longrightarrow> set_ffmpeg_path ext w = Inr w) \<and>
   (which ext (environ w) ''ffmpeg'' = None \<and> environ w ''PATH'' = Some old \<longrightarrow>
      set_ffmpeg_path ext w =
        Inr (w\<lparr>environ := (environ w)(''PATH'' \<mapsto> ffmpeg_dir @ pathsep ext @ old)\<rparr>))"
  by (simp add: set_ffmpeg_path_def is_ffmpeg_available_def)

text \<open>
  Both cases on samples: the decoder absent in a process whose \<open>PATH\<close> is \<open>C:/bin\<close>, and
  the decoder found.
\<close>

lemma set_ffmpeg_path_effect_example:
  "which sample_externals (environ (fresh_world\<lparr>environ := [''PATH'' \<mapsto> ''C:/bin'']\<rparr>)) ''ffmpeg'' = None \<and>
   environ (fresh_world\<lparr>environ := [''PATH'' \<mapsto> ''C:/bin'']\<rparr>) ''PATH'' = Some ''C:/bin'' \<and>
   environ (projr (set_ffmpeg_path sample_externals (fresh_world\<lparr>environ := [''PATH'' \<mapsto> ''C:/bin'']\<rparr>))) ''PATH''
     = Some (ffmpeg_dir @ '';C:/bin'') \<and>
   which (sample_externals\<lparr>which := (\<lambda>env cmd. Some ''C:/bin/ffmpeg.exe'')\<rparr>) (environ fresh_world) ''ffmpeg''
     \<noteq> None \<and>
   set_ffmpeg_path (sample_externals\<lparr>which := (\<lambda>env cmd. Some ''C:/bin/ffmpeg.exe'')\<rparr>) fresh_world
     = Inr fresh_world"
proof -
  let ?w = "fresh_world\<lparr>environ := [''PATH'' \<mapsto> ''C:/bin'']\<rparr>"
  let ?found = "sample_externals\<lparr>which := (\<lambda>env cmd. Some ''C:/bin/ffmpeg.exe'')\<rparr>"
  have h: "which sample_externals (environ ?w) ''ffmpeg'' = None \<and> environ ?w ''PATH'' = Some ''C:/bin''"
    by (simp add: sample_externals_def fresh_world_def)
  have g: "which ?found (environ fresh_world) ''ffmpeg'' \<noteq> None"
    by simp
  from set_ffmpeg_path_effect [of sample_externals ?w "''C:/bin''"] h
  have "set_ffmpeg_path sample_externals ?w =
        Inr (?w\<lparr>environ := (environ ?w)(''PATH'' \<mapsto> ffmpeg_dir @ pathsep sample_externals @ ''C:/bin'')\<rparr>)"
    by blast
  moreover from set_ffmpeg_path_effect [of ?found fresh_world] g
  have "set_ffmpeg_path ?found fresh_world = Inr fresh_world"
    by blast
  ultimately show ?thesis using h g by (simp add: sample_externals_def)
qed

text \<open>
  Claim C9. The fallback is to add the known directory to the search path whenever the
  decoder is not discoverable, and never to fail loudly. The code builds the new value
  from \<open>os.environ["PATH"]\<close>, read without a default: in a process where the decoder is
  not discoverable and the variable \<open>PATH\<close> is not set, line 24 raises \<open>KeyError\<close> and the
  directory is not added.
\<close>

theorem set_ffmpeg_path_no_path_variable:
  "which sample_externals (environ fresh_world) ''ffmpeg'' = None \<and>
   environ fresh_world ''PATH'' = None \<and>
   set_ffmpeg_path sample_externals fresh_world = Inl (PyExn KeyError ([CHR 0x27] @ ''PATH'' @ [CHR 0x27]))"
  by (simp add: set_ffmpeg_path_def is_ffmpeg_available_def sample_externals_def fresh_world_def)

subsection \<open>The model registry\<close>

text \<open>
  Claim C5, as amended. When a call of \<open>load_whisper_model\<close> returns a handle, the next
  call for the same variant returns the same handle and changes nothing, whatever the
  engine would answer then; the first call ran \<open>whisper.load_model\<close> once when the variant
  was not cached, and not at all when it was.
\<close>

theorem load_whisper_model_cached:
  "\<forall>ext1 ext2 size_name w model w1.
     load_whisper_model ext1 size_name w = (Inr model, w1) \<longrightarrow>
       load_whisper_model ext2 size_name w1 = (Inr model, w1) \<and>
       (cache w size_name = None \<longrightarrow> loads w1 = loads w @ [size_name]) \<and>
       (cache w size_name \<noteq> None \<longrightarrow> loads w1 = loads w)"
  by (auto simp: load_whisper_model_def Let_def say_def split: option.splits sum.splits)

text \<open>
  The claim as stated, for every variant, fails for a variant whose load raises: nothing
  is cached, and the second call runs the load again.
\<close>

theorem load_whisper_model_retries_after_failure:
  "fst (load_whisper_model no_model ''base'' fresh_world) = Inl (PyExn RuntimeError ''out of memory'') \<and>
   fst (load_whisper_model no_model ''base'' (snd (load_whisper_model no_model ''base'' fresh_world))) =
     Inl (PyExn RuntimeError ''out of memory'') \<and>
   loads (snd (load_whisper_model no_model ''base'' (snd (load_whisper_model no_model ''base'' fresh_world)))) =
     [''base'', ''base'']"
  by code_simp

theorem load_whisper_model_cached_witness:
  "load_whisper_model sample_externals ''base'' fresh_world =
     (Inr 1, fresh_world\<lparr>loads := [''base''], cache := [''base'' \<mapsto> 1]\<rparr>) \<and>
   load_whisper_model (sample_externals\<lparr>load_model := \<lambda>name. Inr 2\<rparr>) ''base''
     (fresh_world\<lparr>loads := [''base''], cache := [''base'' \<mapsto> 1]\<rparr>) =
     (Inr 1, fresh_world\<lparr>loads := [''base''], cache := [''base'' \<mapsto> 1]\<rparr>)"
proof -
  have h: "load_whisper_model sample_externals ''base'' fresh_world =
     (Inr 1, fresh_world\<lparr>loads := [''base''], cache := [''base'' \<mapsto> 1]\<rparr>)"
    by (simp add: load_whisper_model_def sample_externals_def fresh_world_def Let_def)
  with load_whisper_model_cached show ?thesis by blast
qed

subsection \<open>The steps of the main flow\<close>

text \<open>
  What each step returns, and what it does to the files and to the page. No step but the
  two removals takes a file away, and every step only adds to the page.
\<close>

lemma say_simps:
  "files (say ev w) = files w" "cache (say ev w) = cache w" "loads (say ev w) = loads w"
  "environ (say ev w) = environ w" "ui (say ev w) = ui w @ [ev]"
  by (simp_all add: say_def)

lemma try_remove_simps:
  "files (try_remove ext p w) =
     (if p \<in> files w \<and> remove_error ext p = None then files w - {p} else files w)"
  "cache (try_remove ext p w) = cache w" "loads (try_remove ext p w) = loads w"
  "environ (try_remove ext p w) = environ w" "ui (try_remove ext p w) = ui w"
  by (simp_all add: try_remove_def os_remove_def split: option.splits)

lemma stage_fst:
  "fst (stage ext up w) =
     (case named_temporary_file ext (temp_suffix ext up) of
        Inl e \<Rightarrow> Inl e
      | Inr p \<Rightarrow> (case write_payload ext (up_buffer up) of Some e \<Rightarrow> Inl e | None \<Rightarrow> Inr p))"
  by (simp add: stage_def Let_def split: sum.splits option.splits)

lemma stage_snd:
  "files (snd (stage ext up w)) =
     (case named_temporary_file ext (temp_suffix ext up) of
        Inl e \<Rightarrow> files w | Inr p \<Rightarrow> insert p (files w))"
  "cache (snd (stage ext up w)) = cache w"
  "loads (snd (stage ext up w)) = loads w"
  by (simp_all add: stage_def Let_def say_simps split: sum.splits option.splits)

lemma stage_ui:
  "set (ui w) \<subseteq> set (ui (snd (stage ext up w)))"
  "named_temporary_file ext (temp_suffix ext up) = Inr p \<Longrightarrow> write_payload ext (up_buffer up) = Some e \<Longrightarrow>
     StError (''Failed to save uploaded file to disk: '' @ exn_str e) \<in> set (ui (snd (stage ext up w)))"
  by (auto simp: stage_def Let_def say_simps split: sum.splits option.splits)

lemma load_whisper_model_fst:
  "fst (load_whisper_model ext (model_size st) w) = model_answer ext st w"
  by (simp add: load_whisper_model_def model_answer_def Let_def split: option.splits sum.splits)

lemma load_whisper_model_snd:
  "files (snd (load_whisper_model ext n w)) = files w"
  "set (ui w) \<subseteq> set (ui (snd (load_whisper_model ext n w)))"
  by (auto simp: load_whisper_model_def Let_def say_simps split: option.splits sum.splits)

lemma load_whisper_model_error:
  "model_answer ext st w = Inl e \<Longrightarrow>
   StError (''Failed to load Whisper model '' @ [CHR 0x27] @ model_size st @ [CHR 0x27] @ '': '' @ exn_str e)
     \<in> set (ui (snd (load_whisper_model ext (model_size st) w)))"
  by (auto simp: load_whisper_model_def model_answer_def Let_def say_simps split: option.splits sum.splits)

lemma model_answer_say: "model_answer ext st (say ev w) = model_answer ext st w"
  by (simp add: model_answer_def say_simps)

lemma obtain_model_cases:
  obtains w1 where
    "files w1 = files w" "set (ui w) \<subseteq> set (ui w1)"
    "model_answer ext st w1 = model_answer ext st w"
    "obtain_model ext st p w =
       (case fst (load_whisper_model ext (model_size st) w1) of
          Inl e \<Rightarrow> (None, try_remove ext p (snd (load_whisper_model ext (model_size st) w1)))
        | Inr m \<Rightarrow> (Some m, snd (load_whisper_model ext (model_size st) w1)))"
proof -
  let ?w1 = "say (StInfo ''File saved to temporary path. Loading model...'') w"
  have "files ?w1 = files w" by (simp add: say_simps)
  moreover have "set (ui w) \<subseteq> set (ui ?w1)" by (auto simp: say_simps)
  moreover have "model_answer ext st ?w1 = model_answer ext st w" by (rule model_answer_say)
  moreover have "obtain_model ext st p w =
       (case fst (load_whisper_model ext (model_size st) ?w1) of
          Inl e \<Rightarrow> (None, try_remove ext p (snd (load_whisper_model ext (model_size st) ?w1)))
        | Inr m \<Rightarrow> (Some m, snd (load_whisper_model ext (model_size st) ?w1)))"
    unfolding obtain_model_def
    by (cases "load_whisper_model ext (model_size st) ?w1";
        cases "fst (load_whisper_model ext (model_size st) ?w1)") simp_all
  ultimately show ?thesis by (rule that)
qed

lemma obtain_model_fst:
  "fst (obtain_model ext st p w) = (case model_answer ext st w of Inl e \<Rightarrow> None | Inr m \<Rightarrow> Some m)"
proof -
  obtain w1 where w1: "model_answer ext st w1 = model_answer ext st w"
    and om: "obtain_model ext st p w =
       (case fst (load_whisper_model ext (model_size st) w1) of
          Inl e \<Rightarrow> (None, try_remove ext p (snd (load_whisper_model ext (model_size st) w1)))
        | Inr m \<Rightarrow> (Some m, snd (load_whisper_model ext (model_size st) w1)))"
    by (rule obtain_model_cases)
  show ?thesis
    unfolding om load_whisper_model_fst w1
    by (cases "model_answer ext st w") simp_all
qed

lemma obtain_model_files:
  "files (snd (obtain_model ext st p w)) =
     (case model_answer ext st w of
        Inl e \<Rightarrow> (if p \<in> files w \<and> remove_error ext p = None then files w - {p} else files w)
      | Inr m \<Rightarrow> files w)"
proof -
  obtain w1 where w1: "files w1 = files w" "model_answer ext st w1 = model_answer ext st w"
    and om: "obtain_model ext st p w =
       (case fst (load_whisper_model ext (model_size st) w1) of
          Inl e \<Rightarrow> (None, try_remove ext p (snd (load_whisper_model ext (model_size st) w1)))
        | Inr m \<Rightarrow> (Some m, snd (load_whisper_model ext (model_size st) w1)))"
    by (rule obtain_model_cases)
  show ?thesis
    unfolding om load_whisper_model_fst w1(2)
    by (cases "model_answer ext st w")
      (simp_all add: try_remove_simps(1) load_whisper_model_snd(1) w1(1))
qed

lemma obtain_model_ui:
  "set (ui w) \<subseteq> set (ui (snd (obtain_model ext st p w)))"
  "model_answer ext st w = Inl e \<Longrightarrow>
   StError (''Failed to load Whisper model '' @ [CHR 0x27] @ model_size st @ [CHR 0x27] @ '': '' @ exn_str e)
     \<in> set (ui (snd (obtain_model ext st p w)))"
proof -
  obtain w1 where w1: "set (ui w) \<subseteq> set (ui w1)" "model_answer ext st w1 = model_answer ext st w"
    and om: "obtain_model ext st p w =
       (case fst (load_whisper_model ext (model_size st) w1) of
          Inl e \<Rightarrow> (None, try_remove ext p (snd (load_whisper_model ext (model_size st) w1)))
        | Inr m \<Rightarrow> (Some m, snd (load_whisper_model ext (model_size st) w1)))"
    by (rule obtain_model_cases)
  have u: "ui (snd (obtain_model ext st p w)) = ui (snd (load_whisper_model ext (model_size st) w1))"
    unfolding om by (cases "fst (load_whisper_model ext (model_size st) w1)")
      (simp_all add: try_remove_simps(5))
  show "set (ui w) \<subseteq> set (ui (snd (obtain_model ext st p w)))"
    unfolding u using w1(1) load_whisper_model_snd(2) [of w1 ext "model_size st"] by blast
  assume "model_answer ext st w = Inl e"
  then have "model_answer ext st w1 = Inl e" by (simp add: w1(2))
  then show "StError (''Failed to load Whisper model '' @ [CHR 0x27] @ model_size st @ [CHR 0x27] @ '': '' @ exn_str e)
     \<in> set (ui (snd (obtain_model ext st p w)))"
    unfolding u by (rule load_whisper_model_error)
qed

lemma run_transcribe_fst:
  "fst (run_transcribe ext m p w) =
     (case transcribe ext m (transcribe_args p) of Inl e \<Rightarrow> None | Inr r \<Rightarrow> Some r)"
  by (simp add: run_transcribe_def Let_def split: sum.splits)

lemma run_transcribe_snd:
  "files (snd (run_transcribe ext m p w)) = files w"
  "set (ui w) \<subseteq> set (ui (snd (run_transcribe ext m p w)))"
  "transcribe ext m (transcribe_args p) = Inl e \<Longrightarrow>
     StError ((if exn_cls e = RuntimeError then ''Runtime error during transcription: ''
               else ''An error occurred during transcription: '') @ exn_str e)
       \<in> set (ui (snd (run_transcribe ext m p w)))"
  by (auto simp: run_transcribe_def Let_def say_simps split: sum.splits)

lemma show_segments_loop_fst:
  "(fst (show_segments_loop segments w) = None) = list_all displayable segments"
  by (induction segments arbitrary: w) (auto simp: displayable_def split: sum.splits)

lemma show_segments_loop_snd:
  "files (snd (show_segments_loop segments w)) = files w"
  "set (ui w) \<subseteq> set (ui (snd (show_segments_loop segments w)))"
proof (induction segments arbitrary: w)
  case Nil
  { case 1 show ?case by simp }
  { case 2 show ?case by simp }
next
  case (Cons seg segments)
  { case 1 show ?case by (simp add: Cons.IH(1) say_simps split: sum.splits) }
  { case 2 show ?case
      using Cons.IH(2) by (fastforce simp: say_simps split: sum.splits) }
qed

lemma txt_download_simps:
  "files (txt_download ext up t w) = files w"
  "set (ui w) \<subseteq> set (ui (txt_download ext up t w))"
  by (auto simp: txt_download_def say_simps split: option.splits)

lemma srt_download_simps:
  "files (srt_download ext up segs w) = files w"
  "set (ui w) \<subseteq> set (ui (srt_download ext up segs w))"
  by (auto simp: srt_download_def say_simps split: option.splits sum.splits)

lemma show_result_cases:
  obtains w2 where
    "files w2 = files w" "set (ui w) \<subseteq> set (ui w2)"
    "show_result ext st up result w =
       (case (if show_segments st \<and> (case res_segments result of None \<Rightarrow> [] | Some segs \<Rightarrow> segs) \<noteq> []
              then show_segments_loop (case res_segments result of None \<Rightarrow> [] | Some segs \<Rightarrow> segs) w2
              else (None, w2)) of
          (Some e, w3) \<Rightarrow> (Some e, w3)
        | (None, w3) \<Rightarrow>
            (let w4 = (if enable_txt_download st
                       then txt_download ext up (strip (get_text (res_text result))) w3 else w3);
                 w5 = (if enable_srt_download st \<and> (case res_segments result of None \<Rightarrow> [] | Some segs \<Rightarrow> segs) \<noteq> []
                       then srt_download ext up (case res_segments result of None \<Rightarrow> [] | Some segs \<Rightarrow> segs) w4 else w4)
             in (None, w5)))"
proof -
  let ?segs = "case res_segments result of None \<Rightarrow> [] | Some segs \<Rightarrow> segs"
  let ?w2 = "say (StTextArea ''Transcript'' (strip (get_text (res_text result))))
                 (say (StSubheader ''Full Transcript (English)'')
                    (say (StSuccess (''Transcription finished in '' @ elapsed ext @ '' seconds.'')) w))"
  let ?w2' = "if show_segments st \<and> ?segs \<noteq> [] then say (StSubheader ''Segments'') ?w2 else ?w2"
  have "files ?w2' = files w" by (simp add: say_simps)
  moreover have "set (ui w) \<subseteq> set (ui ?w2')" by (auto simp: say_simps)
  moreover have "show_result ext st up result w =
       (case (if show_segments st \<and> ?segs \<noteq> [] then show_segments_loop ?segs ?w2' else (None, ?w2')) of
          (Some e, w3) \<Rightarrow> (Some e, w3)
        | (None, w3) \<Rightarrow>
            (let w4 = (if enable_txt_download st
                       then txt_download ext up (strip (get_text (res_text result))) w3 else w3);
                 w5 = (if enable_srt_download st \<and> ?segs \<noteq> []
                       then srt_download ext up ?segs w4 else w4)
             in (None, w5)))"
    by (simp add: show_result_def Let_def)
  ultimately show ?thesis by (rule that)
qed

lemma show_result_fst:
  "(fst (show_result ext st up result w) = None) = (\<not> display_raises st result)"
proof -
  obtain w2 where sr: "show_result ext st up result w =
       (case (if show_segments st \<and> (case res_segments result of None \<Rightarrow> [] | Some segs \<Rightarrow> segs) \<noteq> []
              then show_segments_loop (case res_segments result of None \<Rightarrow> [] | Some segs \<Rightarrow> segs) w2
              else (None, w2)) of
          (Some e, w3) \<Rightarrow> (Some e, w3)
        | (None, w3) \<Rightarrow>
            (let w4 = (if enable_txt_download st
                       then txt_download ext up (strip (get_text (res_text result))) w3 else w3);
                 w5 = (if enable_srt_download st \<and> (case res_segments result of None \<Rightarrow> [] | Some segs \<Rightarrow> segs) \<noteq> []
                       then srt_download ext up (case res_segments result of None \<Rightarrow> [] | Some segs \<Rightarrow> segs) w4 else w4)
             in (None, w5)))"
    by (rule show_result_cases)
  define segs where "segs = (case res_segments result of None \<Rightarrow> [] | Some segs \<Rightarrow> segs)"
  have l: "(fst (show_segments_loop segs w2) = None) = list_all displayable segs"
    by (rule show_segments_loop_fst)
  show ?thesis
  proof (cases "show_segments st \<and> segs \<noteq> []")
    case True
    then show ?thesis
      unfolding sr display_raises_def segs_def [symmetric]
      using l by (cases "show_segments_loop segs w2"; cases "fst (show_segments_loop segs w2)")
        (auto simp: Let_def)
  next
    case False
    then have "\<not> show_segments st \<or> list_all displayable segs" by auto
    then show ?thesis
      unfolding sr display_raises_def segs_def [symmetric]
      using False by (auto simp: Let_def)
  qed
qed

lemma show_result_snd:
  "files (snd (show_result ext st up result w)) = files w"
  "set (ui w) \<subseteq> set (ui (snd (show_result ext st up result w)))"
proof -
  obtain w2 where w2: "files w2 = files w" "set (ui w) \<subseteq> set (ui w2)" and sr: "show_result ext st up result w =
       (case (if show_segments st \<and> (case res_segments result of None \<Rightarrow> [] | Some segs \<Rightarrow> segs) \<noteq> []
              then show_segments_loop (case res_segments result of None \<Rightarrow> [] | Some segs \<Rightarrow> segs) w2
              else (None, w2)) of
          (Some e, w3) \<Rightarrow> (Some e, w3)
        | (None, w3) \<Rightarrow>
            (let w4 = (if enable_txt_download st
                       then txt_download ext up (strip (get_text (res_text result))) w3 else w3);
                 w5 = (if enable_srt_download st \<and> (case res_segments result of None \<Rightarrow> [] | Some segs \<Rightarrow> segs) \<noteq> []
                       then srt_download ext up (case res_segments result of None \<Rightarrow> [] | Some segs \<Rightarrow> segs) w4 else w4)
             in (None, w5)))"
    by (rule show_result_cases)
  define segs where "segs = (case res_segments result of None \<Rightarrow> [] | Some segs \<Rightarrow> segs)"
  define r where "r = (if show_segments st \<and> segs \<noteq> [] then show_segments_loop segs w2 else (None, w2))"
  define t where "t = strip (get_text (res_text result))"
  have rf: "files (snd r) = files w"
    using w2 by (simp add: r_def show_segments_loop_snd(1))
  have ru: "set (ui w) \<subseteq> set (ui (snd r))"
    using w2 show_segments_loop_snd(2) [of w2 segs] by (auto simp: r_def)
  have sr': "show_result ext st up result w =
       (case fst r of Some e \<Rightarrow> (Some e, snd r)
        | None \<Rightarrow> (None, (if enable_srt_download st \<and> segs \<noteq> []
                       then srt_download ext up segs
                         (if enable_txt_download st then txt_download ext up t (snd r) else snd r)
                       else (if enable_txt_download st then txt_download ext up t (snd r) else snd r))))"
    unfolding sr segs_def [symmetric] r_def [symmetric] t_def [symmetric]
    by (cases r; cases "fst r") (simp_all add: Let_def)
  show "files (snd (show_result ext st up result w)) = files w"
    unfolding sr' using rf
    by (cases "fst r") (simp_all add: txt_download_simps srt_download_simps)
  define w4 where "w4 = (if enable_txt_download st then txt_download ext up t (snd r) else snd r)"
  define w5 where "w5 = (if enable_srt_download st \<and> segs \<noteq> [] then srt_download ext up segs w4 else w4)"
  have "set (ui (snd r)) \<subseteq> set (ui w4)"
    using txt_download_simps(2) by (simp add: w4_def)
  moreover have "set (ui w4) \<subseteq> set (ui w5)"
    using srt_download_simps(2) by (simp add: w5_def)
  ultimately have u5: "set (ui w) \<subseteq> set (ui w5)" using ru by blast
  show "set (ui w) \<subseteq> set (ui (snd (show_result ext st up result w)))"
  proof (cases "fst r")
    case None
    then have "snd (show_result ext st up result w) = w5"
      unfolding sr' w5_def w4_def by simp
    then show ?thesis using u5 by simp
  next
    case (Some e)
    then have "snd (show_result ext st up result w) = snd r"
      unfolding sr' by simp
    then show ?thesis using ru by simp
  qed
qed

lemma model_answer_cache: "cache w' = cache w \<Longrightarrow> model_answer ext st w' = model_answer ext st w"
  by (simp add: model_answer_def)

lemma transcription_not_pressed:
  "\<not> transcribe_btn ext \<Longrightarrow> fst (transcription ext st up m p w) = Finished"
  "\<not> transcribe_btn ext \<Longrightarrow> files (snd (transcription ext st up m p w)) = files w"
  by (simp_all add: transcription_def Let_def say_simps)

lemma transcription_failed:
  assumes "transcribe_btn ext" "transcribe ext m (transcribe_args p) = Inl e"
  shows "fst (transcription ext st up m p w) = Finished"
    and "files (snd (transcription ext st up m p w)) =
           (if p \<in> files w \<and> remove_error ext p = None then files w - {p} else files w)"
    and "StError ((if exn_cls e = RuntimeError then ''Runtime error during transcription: ''
               else ''An error occurred during transcription: '') @ exn_str e)
           \<in> set (ui (snd (transcription ext st up m p w)))"
proof -
  define w1 where "w1 = say (StButton ''Start Transcription (English)'') w"
  define rt where "rt = run_transcribe ext m p w1"
  have f: "fst rt = None" unfolding rt_def run_transcribe_fst using assms(2) by simp
  have t: "transcription ext st up m p w =
      (Finished, try_remove ext p
         (say (StWarning ''Transcription failed. Check ffmpeg installation and model compatibility.'') (snd rt)))"
    using assms(1) f
    by (cases rt) (simp add: transcription_def Let_def w1_def [symmetric] rt_def [symmetric])
  have fl: "files (snd rt) = files w"
    unfolding rt_def run_transcribe_snd(1) by (simp add: w1_def say_simps)
  show "fst (transcription ext st up m p w) = Finished" by (simp add: t)
  show "files (snd (transcription ext st up m p w)) =
           (if p \<in> files w \<and> remove_error ext p = None then files w - {p} else files w)"
    by (simp add: t try_remove_simps(1) say_simps(1) fl)
  have "StError ((if exn_cls e = RuntimeError then ''Runtime error during transcription: ''
               else ''An error occurred during transcription: '') @ exn_str e) \<in> set (ui (snd rt))"
    unfolding rt_def using assms(2) by (rule run_transcribe_snd(3))
  then show "StError ((if exn_cls e = RuntimeError then ''Runtime error during transcription: ''
               else ''An error occurred during transcription: '') @ exn_str e)
           \<in> set (ui (snd (transcription ext st up m p w)))"
    by (simp add: t try_remove_simps(5) say_simps(5))
qed

lemma transcription_done:
  assumes "transcribe_btn ext" "transcribe ext m (transcribe_args p) = Inr result"
  shows "\<not> display_raises st result \<Longrightarrow> fst (transcription ext st up m p w) = Finished"
    and "\<not> display_raises st result \<Longrightarrow> files (snd (transcription ext st up m p w)) =
           (if p \<in> files w \<and> remove_error ext p = None then files w - {p} else files w)"
    and "display_raises st result \<Longrightarrow> \<exists>e. fst (transcription ext st up m p w) = Uncaught e"
    and "display_raises st result \<Longrightarrow> files (snd (transcription ext st up m p w)) = files w"
proof -
  define w1 where "w1 = say (StButton ''Start Transcription (English)'') w"
  define rt where "rt = run_transcribe ext m p w1"
  define sr where "sr = show_result ext st up result (snd rt)"
  have f: "fst rt = Some result" unfolding rt_def run_transcribe_fst using assms(2) by simp
  have "transcription ext st up m p w =
      (case sr of (None, w3) \<Rightarrow> (Finished, try_remove ext p w3) | (Some e, w3) \<Rightarrow> (Uncaught e, w3))"
    using assms(1) f unfolding sr_def
    by (cases rt) (simp add: transcription_def Let_def w1_def [symmetric] rt_def [symmetric])
  then have t: "transcription ext st up m p w =
      (case fst sr of Some e \<Rightarrow> (Uncaught e, snd sr) | None \<Rightarrow> (Finished, try_remove ext p (snd sr)))"
    by (cases sr; cases "fst sr") simp_all
  have fl: "files (snd sr) = files w"
    unfolding sr_def show_result_snd(1) rt_def run_transcribe_snd(1) by (simp add: w1_def say_simps)
  have d: "(fst sr = None) = (\<not> display_raises st result)"
    unfolding sr_def by (rule show_result_fst)
  { assume "\<not> display_raises st result"
    then have n: "fst sr = None" using d by simp
    show "fst (transcription ext st up m p w) = Finished" by (simp add: t n)
    show "files (snd (transcription ext st up m p w)) =
           (if p \<in> files w \<and> remove_error ext p = None then files w - {p} else files w)"
      by (simp add: t n try_remove_simps(1) fl) }
  { assume "display_raises st result"
    then obtain e where n: "fst sr = Some e" using d by (cases "fst sr") simp_all
    show "\<exists>e. fst (transcription ext st up m p w) = Uncaught e" by (simp add: t n)
    show "files (snd (transcription ext st up m p w)) = files w" by (simp add: t n fl) }
qed

lemma main_flow_staged:
  assumes "named_temporary_file ext (temp_suffix ext up) = Inr p" "write_payload ext (up_buffer up) = None"
  obtains w1 where "files w1 = insert p (files w)" "cache w1 = cache w" "set (ui w) \<subseteq> set (ui w1)"
    "main_flow ext st up w =
       (case fst (obtain_model ext st p w1) of
          None \<Rightarrow> (Stopped, snd (obtain_model ext st p w1))
        | Some m \<Rightarrow> transcription ext st up m p (snd (obtain_model ext st p w1)))"
proof -
  define sg where "sg = stage ext up w"
  have f: "fst sg = Inr p" unfolding sg_def stage_fst using assms by simp
  have "files (snd sg) = insert p (files w)" unfolding sg_def stage_snd(1) using assms by simp
  moreover have "cache (snd sg) = cache w" unfolding sg_def by (rule stage_snd(2))
  moreover have "set (ui w) \<subseteq> set (ui (snd sg))" unfolding sg_def by (rule stage_ui(1))
  moreover have "main_flow ext st up w =
       (case fst (obtain_model ext st p (snd sg)) of
          None \<Rightarrow> (Stopped, snd (obtain_model ext st p (snd sg)))
        | Some m \<Rightarrow> transcription ext st up m p (snd (obtain_model ext st p (snd sg))))"
    using f
    by (cases sg; cases "obtain_model ext st p (snd sg)"; cases "fst (obtain_model ext st p (snd sg))")
      (simp_all add: main_flow_def sg_def [symmetric])
  ultimately show ?thesis by (rule that)
qed

lemma main_flow_write_fails:
  assumes "named_temporary_file ext (temp_suffix ext up) = Inr p" "write_payload ext (up_buffer up) = Some e"
  shows "fst (main_flow ext st up w) = Uncaught e"
    and "StError (''Failed to save uploaded file to disk: '' @ exn_str e) \<in> set (ui (snd (main_flow ext st up w)))"
    and "p \<in> files (snd (main_flow ext st up w))"
proof -
  define sg where "sg = stage ext up w"
  have f: "fst sg = Inl e" unfolding sg_def stage_fst using assms by simp
  have m: "main_flow ext st up w = (Uncaught e, snd sg)"
    using f by (cases sg) (simp add: main_flow_def sg_def [symmetric])
  show "fst (main_flow ext st up w) = Uncaught e" by (simp add: m)
  show "StError (''Failed to save uploaded file to disk: '' @ exn_str e) \<in> set (ui (snd (main_flow ext st up w)))"
    unfolding m sg_def using stage_ui(2) [OF assms] by simp
  show "p \<in> files (snd (main_flow ext st up w))"
    unfolding m sg_def using assms by (simp add: stage_snd(1))
qed

lemma main_flow_load_fails:
  assumes "named_temporary_file ext (temp_suffix ext up) = Inr p" "write_payload ext (up_buffer up) = None"
    "model_answer ext st w = Inl e"
  shows "fst (main_flow ext st up w) = Stopped"
    and "files (snd (main_flow ext st up w)) = (if remove_error ext p = None then files w - {p} else insert p (files w))"
    and "StError (''Failed to load Whisper model '' @ [CHR 0x27] @ model_size st @ [CHR 0x27] @ '': '' @ exn_str e)
      \<in> set (ui (snd (main_flow ext st up w)))"
proof -
  obtain w1 where w1: "files w1 = insert p (files w)" "cache w1 = cache w"
    and mf: "main_flow ext st up w =
       (case fst (obtain_model ext st p w1) of
          None \<Rightarrow> (Stopped, snd (obtain_model ext st p w1))
        | Some m \<Rightarrow> transcription ext st up m p (snd (obtain_model ext st p w1)))"
    using main_flow_staged [OF assms(1,2)] by metis
  have ma: "model_answer ext st w1 = Inl e"
    using assms(3) model_answer_cache [OF w1(2)] by simp
  have f: "fst (obtain_model ext st p w1) = None"
    unfolding obtain_model_fst ma by simp
  have m: "main_flow ext st up w = (Stopped, snd (obtain_model ext st p w1))"
    unfolding mf f by simp
  show "fst (main_flow ext st up w) = Stopped" by (simp add: m)
  show "files (snd (main_flow ext st up w)) = (if remove_error ext p = None then files w - {p} else insert p (files w))"
    unfolding m by (simp add: obtain_model_files ma w1(1))
  show "StError (''Failed to load Whisper model '' @ [CHR 0x27] @ model_size st @ [CHR 0x27] @ '': '' @ exn_str e)
      \<in> set (ui (snd (main_flow ext st up w)))"
    unfolding m using obtain_model_ui(2) [OF ma] by simp
qed

lemma main_flow_loaded:
  assumes "named_temporary_file ext (temp_suffix ext up) = Inr p" "write_payload ext (up_buffer up) = None"
    "model_answer ext st w = Inr m"
  obtains w2 where "files w2 = insert p (files w)"
    "main_flow ext st up w = transcription ext st up m p w2"
proof -
  obtain w1 where w1: "files w1 = insert p (files w)" "cache w1 = cache w"
    and mf: "main_flow ext st up w =
       (case fst (obtain_model ext st p w1) of
          None \<Rightarrow> (Stopped, snd (obtain_model ext st p w1))
        | Some m \<Rightarrow> transcription ext st up m p (snd (obtain_model ext st p w1)))"
    using main_flow_staged [OF assms(1,2)] by metis
  have ma: "model_answer ext st w1 = Inr m"
    using assms(3) model_answer_cache [OF w1(2)] by simp
  have f: "fst (obtain_model ext st p w1) = Some m"
    unfolding obtain_model_fst ma by simp
  have "files (snd (obtain_model ext st p w1)) = insert p (files w)"
    by (simp add: obtain_model_files ma w1(1))
  moreover have "main_flow ext st up w = transcription ext st up m p (snd (obtain_model ext st p w1))"
    unfolding mf f by simp
  ultimately show ?thesis by (rule that)
qed

subsection \<open>Cleanup\<close>

text \<open>
  Where a run reaches one of its two removals (line 115 and lines 172 to 173). Let the
  run stage the upload as \<open>p\<close>. When the model fails to load the run stops, and when the
  button was pressed and transcription either failed, or succeeded with segments the
  display accepts, the run finishes; in these three cases the file this run staged is
  gone afterwards exactly when \<open>os.remove\<close> did not fail, and a failing removal changes
  nothing in how the run ends.
\<close>

lemma staged_file_removed:
  "\<forall>ext st up w p.
     named_temporary_file ext (temp_suffix ext up) = Inr p \<and> write_payload ext (up_buffer up) = None \<longrightarrow>
       (\<forall>e. model_answer ext st w = Inl e \<longrightarrow>
          fst (main_flow ext st up w) = Stopped \<and>
          (p \<in> files (snd (main_flow ext st up w))) = (remove_error ext p \<noteq> None)) \<and>
       (\<forall>m e. model_answer ext st w = Inr m \<and> transcribe_btn ext \<and>
              transcribe ext m (transcribe_args p) = Inl e \<longrightarrow>
          fst (main_flow ext st up w) = Finished \<and>
          (p \<in> files (snd (main_flow ext st up w))) = (remove_error ext p \<noteq> None)) \<and>
       (\<forall>m result. model_answer ext st w = Inr m \<and> transcribe_btn ext \<and>
              transcribe ext m (transcribe_args p) = Inr result \<and> \<not> display_raises st result \<longrightarrow>
          fst (main_flow ext st up w) = Finished \<and>
          (p \<in> files (snd (main_flow ext st up w))) = (remove_error ext p \<noteq> None))"
proof (intro allI impI conjI; elim conjE)
  fix ext st up w p e
  assume s: "named_temporary_file ext (temp_suffix ext up) = Inr p" "write_payload ext (up_buffer up) = None"
    and l: "model_answer ext st w = Inl e"
  show "fst (main_flow ext st up w) = Stopped" by (rule main_flow_load_fails(1) [OF s l])
  show "(p \<in> files (snd (main_flow ext st up w))) = (remove_error ext p \<noteq> None)"
    unfolding main_flow_load_fails(2) [OF s l] by simp
next
  fix ext st up w p m e
  assume s: "named_temporary_file ext (temp_suffix ext up) = Inr p" "write_payload ext (up_buffer up) = None"
    and l: "model_answer ext st w = Inr m" and b: "transcribe_btn ext"
    and t: "transcribe ext m (transcribe_args p) = Inl e"
  obtain w2 where w2: "files w2 = insert p (files w)" "main_flow ext st up w = transcription ext st up m p w2"
    by (rule main_flow_loaded [OF s l])
  show "fst (main_flow ext st up w) = Finished"
    unfolding w2(2) by (rule transcription_failed(1) [OF b t])
  show "(p \<in> files (snd (main_flow ext st up w))) = (remove_error ext p \<noteq> None)"
    unfolding w2(2) transcription_failed(2) [OF b t] by (simp add: w2(1))
next
  fix ext st up w p m result
  assume s: "named_temporary_file ext (temp_suffix ext up) = Inr p" "write_payload ext (up_buffer up) = None"
    and l: "model_answer ext st w = Inr m" and b: "transcribe_btn ext"
    and t: "transcribe ext m (transcribe_args p) = Inr result" and d: "\<not> display_raises st result"
  obtain w2 where w2: "files w2 = insert p (files w)" "main_flow ext st up w = transcription ext st up m p w2"
    by (rule main_flow_loaded [OF s l])
  show "fst (main_flow ext st up w) = Finished"
    unfolding w2(2) by (rule transcription_done(1) [OF b t d])
  show "(p \<in> files (snd (main_flow ext st up w))) = (remove_error ext p \<noteq> None)"
    unfolding w2(2) transcription_done(2) [OF b t d] by (simp add: w2(1))
qed

text \<open>
  The three cases on the sample runs, and the run in which \<open>os.remove\<close> fails on the
  staged file.
\<close>

lemma staged_file_removed_example:
  "fst (main_flow no_model sample_settings sample_upload fresh_world) = Stopped \<and>
   ''/tmp/tmp1.mp3'' \<notin> files (snd (main_flow no_model sample_settings sample_upload fresh_world)) \<and>
   fst (main_flow bad_audio sample_settings sample_upload fresh_world) = Finished \<and>
   ''/tmp/tmp1.mp3'' \<notin> files (snd (main_flow bad_audio sample_settings sample_upload fresh_world)) \<and>
   fst (main_flow sample_externals sample_settings sample_upload fresh_world) = Finished \<and>
   ''/tmp/tmp1.mp3'' \<notin> files (snd (main_flow sample_externals sample_settings sample_upload fresh_world)) \<and>
   fst (main_flow locked_file sample_settings sample_upload fresh_world) = Finished \<and>
   ''/tmp/tmp1.mp3'' \<in> files (snd (main_flow locked_file sample_settings sample_upload fresh_world))"
proof -
  note rl = staged_file_removed [rule_format]
  have a: "named_temporary_file no_model (temp_suffix no_model sample_upload) = Inr ''/tmp/tmp1.mp3'' \<and>
           write_payload no_model (up_buffer sample_upload) = None" by code_simp
  have a1: "model_answer no_model sample_settings fresh_world = Inl (PyExn RuntimeError ''out of memory'')"
    by code_simp
  have a2: "remove_error no_model ''/tmp/tmp1.mp3'' = None" by code_simp
  have b: "named_temporary_file bad_audio (temp_suffix bad_audio sample_upload) = Inr ''/tmp/tmp1.mp3'' \<and>
           write_payload bad_audio (up_buffer sample_upload) = None" by code_simp
  have b1: "model_answer bad_audio sample_settings fresh_world = Inr 1 \<and> transcribe_btn bad_audio \<and>
            transcribe bad_audio 1 (transcribe_args ''/tmp/tmp1.mp3'') = Inl (PyExn RuntimeError ''Failed to load audio'')"
    by code_simp
  have b2: "remove_error bad_audio ''/tmp/tmp1.mp3'' = None" by code_simp
  have c: "named_temporary_file sample_externals (temp_suffix sample_externals sample_upload) = Inr ''/tmp/tmp1.mp3'' \<and>
           write_payload sample_externals (up_buffer sample_upload) = None" by code_simp
  have c1: "model_answer sample_externals sample_settings fresh_world = Inr 1 \<and> transcribe_btn sample_externals \<and>
            transcribe sample_externals 1 (transcribe_args ''/tmp/tmp1.mp3'') = Inr sample_result \<and>
            \<not> display_raises sample_settings sample_result"
    by code_simp
  have c2: "remove_error sample_externals ''/tmp/tmp1.mp3'' = None" by code_simp
  have d: "named_temporary_file locked_file (temp_suffix locked_file sample_upload) = Inr ''/tmp/tmp1.mp3'' \<and>
           write_payload locked_file (up_buffer sample_upload) = None" by code_simp
  have d1: "model_answer locked_file sample_settings fresh_world = Inr 1 \<and> transcribe_btn locked_file \<and>
            transcribe locked_file 1 (transcribe_args ''/tmp/tmp1.mp3'') = Inl (PyExn RuntimeError ''Failed to load audio'')"
    by code_simp
  have d2: "remove_error locked_file ''/tmp/tmp1.mp3'' \<noteq> None" by code_simp
  from rl [OF a, THEN conjunct1, rule_format, OF a1] a2
  have "fst (main_flow no_model sample_settings sample_upload fresh_world) = Stopped \<and>
   ''/tmp/tmp1.mp3'' \<notin> files (snd (main_flow no_model sample_settings sample_upload fresh_world))"
    by simp
  moreover from rl [OF b, THEN conjunct2, THEN conjunct1, rule_format, OF b1] b2
  have "fst (main_flow bad_audio sample_settings sample_upload fresh_world) = Finished \<and>
   ''/tmp/tmp1.mp3'' \<notin> files (snd (main_flow bad_audio sample_settings sample_upload fresh_world))"
    by simp
  moreover from rl [OF c, THEN conjunct2, THEN conjunct2, rule_format, OF c1] c2
  have "fst (main_flow sample_externals sample_settings sample_upload fresh_world) = Finished \<and>
   ''/tmp/tmp1.mp3'' \<notin> files (snd (main_flow sample_externals sample_settings sample_upload fresh_world))"
    by simp
  moreover from rl [OF d, THEN conjunct2, THEN conjunct1, rule_format, OF d1] d2
  have "fst (main_flow locked_file sample_settings sample_upload fresh_world) = Finished \<and>
   ''/tmp/tmp1.mp3'' \<in> files (snd (main_flow locked_file sample_settings sample_upload fresh_world))"
    by simp
  ultimately show ?thesis by blast
qed

text \<open>
  Two runs reach neither removal and leave the staged file on disk: the run in which the
  button is not pressed, and the run in which writing the payload fails (the file was
  created before the write).
\<close>

lemma staged_file_left_when_idle:
  assumes "named_temporary_file ext (temp_suffix ext up) = Inr p" "write_payload ext (up_buffer up) = None"
    "model_answer ext st w = Inr m" "\<not> transcribe_btn ext"
  shows "fst (main_flow ext st up w) = Finished \<and> p \<in> files (snd (main_flow ext st up w))"
proof -
  obtain w2 where w2: "files w2 = insert p (files w)" "main_flow ext st up w = transcription ext st up m p w2"
    by (rule main_flow_loaded [OF assms(1,2,3)])
  show ?thesis
    unfolding w2(2) by (simp add: transcription_not_pressed [OF assms(4)] w2(1))
qed

lemma failed_write_leaves_file:
  assumes "named_temporary_file ext (temp_suffix ext up) = Inr p" "write_payload ext (up_buffer up) = Some e"
  shows "p \<in> files (snd (main_flow ext st up w))"
  by (rule main_flow_write_fails(3) [OF assms])

text \<open>
  Claim C3. Every request that reaches a terminal state should leave no staged file
  behind, whether transcription succeeded or failed. After a transcription the code
  removes the file at lines 172 to 173, ordinary statements inside \<open>if transcribe_btn:\<close>
  that follow the display of the result, not a \<open>finally\<close>. Two requests show a file
  left on disk.

  A transcription is two runs of the script, one when the file is uploaded and one when
  the button is clicked, and each run stages a file of its own. The run of the upload
  finishes with \<open>/tmp/tmp1.mp3\<close> on disk; the run of the click transcribes, shows the
  result and removes \<open>/tmp/tmp2.mp3\<close>, the file it staged itself; \<open>/tmp/tmp1.mp3\<close> is
  still there, though nothing would have kept \<open>os.remove\<close> from removing it.

  In a run whose result has a segment the display cannot show (here a start that is
  NaN), the loop of lines 144 to 147 raises; unlike the two download blocks after it, it
  has no handler, so the exception leaves the script and line 172 is not reached.
\<close>

theorem staged_file_not_removed:
  "\<not> transcribe_btn upload_run \<and>
   named_temporary_file upload_run (temp_suffix upload_run sample_upload) = Inr ''/tmp/tmp1.mp3'' \<and>
   fst (main_flow upload_run sample_settings sample_upload fresh_world) = Finished \<and>
   ''/tmp/tmp1.mp3'' \<in> files (snd (main_flow upload_run sample_settings sample_upload fresh_world)) \<and>
   transcribe_btn click_run \<and>
   named_temporary_file click_run (temp_suffix click_run sample_upload) = Inr ''/tmp/tmp2.mp3'' \<and>
   remove_error click_run ''/tmp/tmp1.mp3'' = None \<and>
   fst (main_flow click_run sample_settings sample_upload
          (snd (main_flow upload_run sample_settings sample_upload fresh_world))) = Finished \<and>
   StSuccess ''Transcription finished in 1.0 seconds.'' \<in>
     set (ui (snd (main_flow click_run sample_settings sample_upload
          (snd (main_flow upload_run sample_settings sample_upload fresh_world))))) \<and>
   ''/tmp/tmp2.mp3'' \<notin> files (snd (main_flow click_run sample_settings sample_upload
          (snd (main_flow upload_run sample_settings sample_upload fresh_world)))) \<and>
   ''/tmp/tmp1.mp3'' \<in> files (snd (main_flow click_run sample_settings sample_upload
          (snd (main_flow upload_run sample_settings sample_upload fresh_world)))) \<and>
   transcribe_btn nan_times \<and>
   transcribe nan_times 1 (transcribe_args ''/tmp/tmp1.mp3'') = Inr nan_result \<and>
   remove_error nan_times ''/tmp/tmp1.mp3'' = None \<and>
   fst (main_flow nan_times sample_settings sample_upload fresh_world) =
     Uncaught (PyExn ValueError ''cannot convert float NaN to integer'') \<and>
   ''/tmp/tmp1.mp3'' \<in> files (snd (main_flow nan_times sample_settings sample_upload fresh_world))"
  by code_simp

subsection \<open>Errors and messages\<close>

text \<open>
  Claim C2, as amended. Once the temporary file is created: a failure of writing the
  payload is written to the page and raised again, so the run ends with that exception;
  after a successful write, a failure of the model load is written to the page and the run
  stops, a failure of the transcription call is written to the page and the run finishes,
  and a run whose display accepts the segments, or whose button was not pressed, finishes.
\<close>

theorem errors_reported:
  "\<forall>ext st up w p.
     named_temporary_file ext (temp_suffix ext up) = Inr p \<longrightarrow>
       (\<forall>e. write_payload ext (up_buffer up) = Some e \<longrightarrow>
          fst (main_flow ext st up w) = Uncaught e \<and>
          StError (''Failed to save uploaded file to disk: '' @ exn_str e)
            \<in> set (ui (snd (main_flow ext st up w)))) \<and>
       (write_payload ext (up_buffer up) = None \<longrightarrow>
          (\<forall>e. model_answer ext st w = Inl e \<longrightarrow>
             fst (main_flow ext st up w) = Stopped \<and>
             StError (''Failed to load Whisper model '' @ [CHR 0x27] @ model_size st @ [CHR 0x27] @
                      '': '' @ exn_str e) \<in> set (ui (snd (main_flow ext st up w)))) \<and>
          (\<forall>m e. model_answer ext st w = Inr m \<and> transcribe_btn ext \<and>
                 transcribe ext m (transcribe_args p) = Inl e \<longrightarrow>
             fst (main_flow ext st up w) = Finished \<and>
             StError ((if exn_cls e = RuntimeError then ''Runtime error during transcription: ''
                       else ''An error occurred during transcription: '') @ exn_str e)
               \<in> set (ui (snd (main_flow ext st up w)))) \<and>
          (\<forall>m result. model_answer ext st w = Inr m \<and> transcribe_btn ext \<and>
                 transcribe ext m (transcribe_args p) = Inr result \<and> \<not> display_raises st result \<longrightarrow>
             fst (main_flow ext st up w) = Finished) \<and>
          (\<forall>m. model_answer ext st w = Inr m \<and> \<not> transcribe_btn ext \<longrightarrow>
             fst (main_flow ext st up w) = Finished))"
proof (intro allI impI conjI; (elim conjE)?)
  fix ext st up w p e
  assume s: "named_temporary_file ext (temp_suffix ext up) = Inr p"
    and wr: "write_payload ext (up_buffer up) = Some e"
  show "fst (main_flow ext st up w) = Uncaught e" by (rule main_flow_write_fails(1) [OF s wr])
  show "StError (''Failed to save uploaded file to disk: '' @ exn_str e)
            \<in> set (ui (snd (main_flow ext st up w)))" by (rule main_flow_write_fails(2) [OF s wr])
next
  fix ext st up w p e
  assume s: "named_temporary_file ext (temp_suffix ext up) = Inr p" "write_payload ext (up_buffer up) = None"
    and l: "model_answer ext st w = Inl e"
  show "fst (main_flow ext st up w) = Stopped" by (rule main_flow_load_fails(1) [OF s l])
  show "StError (''Failed to load Whisper model '' @ [CHR 0x27] @ model_size st @ [CHR 0x27] @
                      '': '' @ exn_str e) \<in> set (ui (snd (main_flow ext st up w)))"
    by (rule main_flow_load_fails(3) [OF s l])
next
  fix ext st up w p m e
  assume s: "named_temporary_file ext (temp_suffix ext up) = Inr p" "write_payload ext (up_buffer up) = None"
    and l: "model_answer ext st w = Inr m" and b: "transcribe_btn ext"
    and t: "transcribe ext m (transcribe_args p) = Inl e"
  obtain w2 where w2: "main_flow ext st up w = transcription ext st up m p w2"
    by (rule main_flow_loaded [OF s l])
  show "fst (main_flow ext st up w) = Finished"
    unfolding w2 by (rule transcription_failed(1) [OF b t])
  show "StError ((if exn_cls e = RuntimeError then ''Runtime error during transcription: ''
                       else ''An error occurred during transcription: '') @ exn_str e)
               \<in> set (ui (snd (main_flow ext st up w)))"
    unfolding w2 by (rule transcription_failed(3) [OF b t])
next
  fix ext st up w p m result
  assume s: "named_temporary_file ext (temp_suffix ext up) = Inr p" "write_payload ext (up_buffer up) = None"
    and l: "model_answer ext st w = Inr m" and b: "transcribe_btn ext"
    and t: "transcribe ext m (transcribe_args p) = Inr result" and d: "\<not> display_raises st result"
  obtain w2 where w2: "main_flow ext st up w = transcription ext st up m p w2"
    by (rule main_flow_loaded [OF s l])
  show "fst (main_flow ext st up w) = Finished"
    unfolding w2 by (rule transcription_done(1) [OF b t d])
next
  fix ext st up w p m
  assume s: "named_temporary_file ext (temp_suffix ext up) = Inr p" "write_payload ext (up_buffer up) = None"
    and l: "model_answer ext st w = Inr m" and b: "\<not> transcribe_btn ext"
  obtain w2 where w2: "main_flow ext st up w = transcription ext st up m p w2"
    by (rule main_flow_loaded [OF s l])
  show "fst (main_flow ext st up w) = Finished"
    unfolding w2 by (rule transcription_not_pressed(1) [OF b])
qed

text \<open>
  The claim as stated, no error propagates, fails for the staging write: line 107 raises
  the exception again after reporting it.
\<close>

theorem staging_failure_propagates:
  "named_temporary_file full_disk (temp_suffix full_disk sample_upload) = Inr ''/tmp/tmp1.mp3'' \<and>
   write_payload full_disk (up_buffer sample_upload) = Some (PyExn OSError ''No space left on device'') \<and>
   fst (main_flow full_disk sample_settings sample_upload fresh_world) =
     Uncaught (PyExn OSError ''No space left on device'') \<and>
   fst (script full_disk sample_settings (Some sample_upload)
          (fresh_world\<lparr>environ := [''PATH'' \<mapsto> ''C:/bin'']\<rparr>)) =
     Uncaught (PyExn OSError ''No space left on device'')"
  by code_simp

theorem errors_reported_witness:
  "fst (main_flow full_disk sample_settings sample_upload fresh_world) =
     Uncaught (PyExn OSError ''No space left on device'') \<and>
   StError ''Failed to save uploaded file to disk: No space left on device''
     \<in> set (ui (snd (main_flow full_disk sample_settings sample_upload fresh_world))) \<and>
   fst (main_flow no_model sample_settings sample_upload fresh_world) = Stopped \<and>
   StError (''Failed to load Whisper model '' @ [CHR 0x27] @ ''base'' @ [CHR 0x27] @ '': out of memory'')
     \<in> set (ui (snd (main_flow no_model sample_settings sample_upload fresh_world))) \<and>
   fst (main_flow bad_audio sample_settings sample_upload fresh_world) = Finished \<and>
   StError ''Runtime error during transcription: Failed to load audio''
     \<in> set (ui (snd (main_flow bad_audio sample_settings sample_upload fresh_world))) \<and>
   fst (main_flow sample_externals sample_settings sample_upload fresh_world) = Finished \<and>
   fst (main_flow (sample_externals\<lparr>transcribe_btn := False\<rparr>) sample_settings sample_upload fresh_world) = Finished"
proof -
  note rl = errors_reported [rule_format]
  have a: "named_temporary_file full_disk (temp_suffix full_disk sample_upload) = Inr ''/tmp/tmp1.mp3''"
    and a1: "write_payload full_disk (up_buffer sample_upload) = Some (PyExn OSError ''No space left on device'')"
    by code_simp+
  have b: "named_temporary_file no_model (temp_suffix no_model sample_upload) = Inr ''/tmp/tmp1.mp3''"
    and b0: "write_payload no_model (up_buffer sample_upload) = None"
    and b1: "model_answer no_model sample_settings fresh_world = Inl (PyExn RuntimeError ''out of memory'')"
    and b2: "model_size sample_settings = ''base''"
    by code_simp+
  have c: "named_temporary_file bad_audio (temp_suffix bad_audio sample_upload) = Inr ''/tmp/tmp1.mp3''"
    and c0: "write_payload bad_audio (up_buffer sample_upload) = None"
    and c1: "model_answer bad_audio sample_settings fresh_world = Inr 1 \<and> transcribe_btn bad_audio \<and>
            transcribe bad_audio 1 (transcribe_args ''/tmp/tmp1.mp3'') = Inl (PyExn RuntimeError ''Failed to load audio'')"
    by code_simp+
  have d: "named_temporary_file sample_externals (temp_suffix sample_externals sample_upload) = Inr ''/tmp/tmp1.mp3''"
    and d0: "write_payload sample_externals (up_buffer sample_upload) = None"
    and d1: "model_answer sample_externals sample_settings fresh_world = Inr 1 \<and> transcribe_btn sample_externals \<and>
            transcribe sample_externals 1 (transcribe_args ''/tmp/tmp1.mp3'') = Inr sample_result \<and>
            \<not> display_raises sample_settings sample_result"
    by code_simp+
  let ?idle = "sample_externals\<lparr>transcribe_btn := False\<rparr>"
  have e: "named_temporary_file ?idle (temp_suffix ?idle sample_upload) = Inr ''/tmp/tmp1.mp3''"
    and e0: "write_payload ?idle (up_buffer sample_upload) = None"
    and e1: "model_answer ?idle sample_settings fresh_world = Inr 1 \<and> \<not> transcribe_btn ?idle"
    by code_simp+
  from rl [OF a, THEN conjunct1, rule_format, OF a1]
  have "fst (main_flow full_disk sample_settings sample_upload fresh_world) =
     Uncaught (PyExn OSError ''No space left on device'') \<and>
   StError ''Failed to save uploaded file to disk: No space left on device''
     \<in> set (ui (snd (main_flow full_disk sample_settings sample_upload fresh_world)))"
    by simp
  moreover from rl [OF b, THEN conjunct2, rule_format, OF b0, THEN conjunct1, rule_format, OF b1]
  have "fst (main_flow no_model sample_settings sample_upload fresh_world) = Stopped \<and>
   StError (''Failed to load Whisper model '' @ [CHR 0x27] @ ''base'' @ [CHR 0x27] @ '': out of memory'')
     \<in> set (ui (snd (main_flow no_model sample_settings sample_upload fresh_world)))"
    by (simp add: b2)
  moreover from rl [OF c, THEN conjunct2, rule_format, OF c0, THEN conjunct2, THEN conjunct1, rule_format, OF c1]
  have "fst (main_flow bad_audio sample_settings sample_upload fresh_world) = Finished \<and>
   StError ''Runtime error during transcription: Failed to load audio''
     \<in> set (ui (snd (main_flow bad_audio sample_settings sample_upload fresh_world)))"
    by simp
  moreover from rl [OF d, THEN conjunct2, rule_format, OF d0, THEN conjunct2, THEN conjunct2, THEN conjunct1, rule_format, OF d1]
  have "fst (main_flow sample_externals sample_settings sample_upload fresh_world) = Finished" .
  moreover from rl [OF e, THEN conjunct2, rule_format, OF e0, THEN conjunct2, THEN conjunct2, THEN conjunct2, rule_format, OF e1]
  have "fst (main_flow ?idle sample_settings sample_upload fresh_world) = Finished" .
  ultimately show ?thesis by blast
qed

subsection \<open>Decoder absence\<close>

text \<open>
  The main flow reads neither the environment nor \<open>shutil.which\<close>: how a run ends
  depends on the world only through the cache.
\<close>

lemma which_update_steps:
  "temp_suffix (ext\<lparr>which := g\<rparr>) up = temp_suffix ext up"
  "stage (ext\<lparr>which := g\<rparr>) up w = stage ext up w"
  "load_whisper_model (ext\<lparr>which := g\<rparr>) n w = load_whisper_model ext n w"
  "try_remove (ext\<lparr>which := g\<rparr>) p w = try_remove ext p w"
  "run_transcribe (ext\<lparr>which := g\<rparr>) m p w = run_transcribe ext m p w"
  "txt_download (ext\<lparr>which := g\<rparr>) up t w = txt_download ext up t w"
  "srt_download (ext\<lparr>which := g\<rparr>) up segs w = srt_download ext up segs w"
  by (simp_all add: temp_suffix_def stage_def load_whisper_model_def try_remove_def os_remove_def
      run_transcribe_def txt_download_def srt_download_def Let_def
      cong: sum.case_cong option.case_cong if_cong)

lemma which_update_main_flow: "main_flow (ext\<lparr>which := g\<rparr>) st up w = main_flow ext st up w"
proof -
  have "obtain_model (ext\<lparr>which := g\<rparr>) st p w = obtain_model ext st p w" for p w
    by (simp add: obtain_model_def which_update_steps split: prod.splits sum.splits)
  moreover have "show_result (ext\<lparr>which := g\<rparr>) st up r w = show_result ext st up r w" for r w
    by (simp add: show_result_def which_update_steps Let_def split: prod.splits option.splits)
  then have "transcription (ext\<lparr>which := g\<rparr>) st up m p w = transcription ext st up m p w" for m p w
    by (simp add: transcription_def which_update_steps Let_def split: prod.splits option.splits)
  ultimately show ?thesis
    by (simp add: main_flow_def which_update_steps split: prod.splits sum.splits option.splits)
qed

lemma show_segments_loop_fst_world:
  "fst (show_segments_loop segments w) = fst (show_segments_loop segments w')"
  by (induction segments arbitrary: w w') (auto split: sum.splits)

lemma show_result_fst_world:
  "fst (show_result ext st up result w) = fst (show_result ext st up result w')"
proof -
  define segs where "segs = (case res_segments result of None \<Rightarrow> [] | Some segs \<Rightarrow> segs)"
  have *: "fst (show_result ext st up result v) =
      (if show_segments st \<and> segs \<noteq> [] then fst (show_segments_loop segs fresh_world) else None)" for v
  proof -
    obtain w2 where sr: "show_result ext st up result v =
       (case (if show_segments st \<and> (case res_segments result of None \<Rightarrow> [] | Some segs \<Rightarrow> segs) \<noteq> []
              then show_segments_loop (case res_segments result of None \<Rightarrow> [] | Some segs \<Rightarrow> segs) w2
              else (None, w2)) of
          (Some e, w3) \<Rightarrow> (Some e, w3)
        | (None, w3) \<Rightarrow>
            (let w4 = (if enable_txt_download st
                       then txt_download ext up (strip (get_text (res_text result))) w3 else w3);
                 w5 = (if enable_srt_download st \<and> (case res_segments result of None \<Rightarrow> [] | Some segs \<Rightarrow> segs) \<noteq> []
                       then srt_download ext up (case res_segments result of None \<Rightarrow> [] | Some segs \<Rightarrow> segs) w4 else w4)
             in (None, w5)))"
      by (rule show_result_cases)
    define r where "r = show_segments_loop segs w2"
    have "fst r = fst (show_segments_loop segs fresh_world)"
      unfolding r_def by (rule show_segments_loop_fst_world)
    then show ?thesis
      unfolding sr segs_def [symmetric] r_def [symmetric]
      by (cases r; cases "fst r") (auto simp: Let_def)
  qed
  show ?thesis unfolding * ..
qed

lemma transcription_fst_world:
  "fst (transcription ext st up m p w) = fst (transcription ext st up m p w')"
proof (cases "transcribe_btn ext")
  case False
  then show ?thesis by (simp add: transcription_not_pressed(1))
next
  case True
  show ?thesis
  proof (cases "transcribe ext m (transcribe_args p)")
    case (Inl e)
    then show ?thesis by (simp add: transcription_failed(1) [OF True])
  next
    case (Inr result)
    have "fst (transcription ext st up m p v) =
        (case fst (show_result ext st up result fresh_world) of Some e \<Rightarrow> Uncaught e | None \<Rightarrow> Finished)" for v
    proof -
      define w1 where "w1 = say (StButton ''Start Transcription (English)'') v"
      define rt where "rt = run_transcribe ext m p w1"
      define sr where "sr = show_result ext st up result (snd rt)"
      have f: "fst rt = Some result" unfolding rt_def run_transcribe_fst using Inr by simp
      have "transcription ext st up m p v =
          (case sr of (None, w3) \<Rightarrow> (Finished, try_remove ext p w3) | (Some e, w3) \<Rightarrow> (Uncaught e, w3))"
        using True f unfolding sr_def
        by (cases rt) (simp add: transcription_def Let_def w1_def [symmetric] rt_def [symmetric])
      then have "fst (transcription ext st up m p v) =
          (case fst sr of Some e \<Rightarrow> Uncaught e | None \<Rightarrow> Finished)"
        by (cases sr; cases "fst sr") simp_all
      moreover have "fst sr = fst (show_result ext st up result fresh_world)"
        unfolding sr_def by (rule show_result_fst_world)
      ultimately show ?thesis by simp
    qed
    then show ?thesis by simp
  qed
qed

lemma main_flow_fst_world:
  assumes "cache w = cache w'"
  shows "fst (main_flow ext st up w) = fst (main_flow ext st up w')"
proof (cases "named_temporary_file ext (temp_suffix ext up)")
  case (Inl e)
  have "fst (main_flow ext st up v) = Uncaught e" for v
  proof -
    have "fst (stage ext up v) = Inl e" using Inl by (simp add: stage_fst)
    then show ?thesis by (cases "stage ext up v") (simp add: main_flow_def)
  qed
  then show ?thesis by simp
next
  case (Inr p)
  show ?thesis
  proof (cases "write_payload ext (up_buffer up)")
    case (Some e)
    then show ?thesis by (simp add: main_flow_write_fails(1) [OF Inr])
  next
    case None
    have ma: "model_answer ext st w = model_answer ext st w'"
      using assms by (simp add: model_answer_def)
    show ?thesis
    proof (cases "model_answer ext st w")
      case (Inl e)
      then show ?thesis using ma by (simp add: main_flow_load_fails(1) [OF Inr None])
    next
      case m: (Inr m)
      obtain w2 where w2: "main_flow ext st up w = transcription ext st up m p w2"
        by (rule main_flow_loaded [OF Inr None m])
      have "model_answer ext st w' = Inr m" using m ma by simp
      then obtain w2' where w2': "main_flow ext st up w' = transcription ext st up m p w2'"
        by (rule main_flow_loaded [OF Inr None])
      show ?thesis unfolding w2 w2' by (rule transcription_fst_world)
    qed
  qed
qed

lemma script_fst:
  "fst (script ext st uploaded w) =
     (case ffmpeg_check ext w of
        Inl e \<Rightarrow> Uncaught e
      | Inr r \<Rightarrow> (case uploaded of None \<Rightarrow> Finished | Some up \<Rightarrow> fst (main_flow ext st up (snd r))))"
proof (cases "ffmpeg_check ext w")
  case (Inl e)
  then show ?thesis by (simp add: script_def)
next
  case (Inr r)
  show ?thesis
  proof (cases uploaded)
    case None
    then show ?thesis using Inr by (cases r) (simp add: script_def)
  next
    case (Some up)
    then show ?thesis using Inr
      by (cases r; cases "main_flow ext st up (snd r)"; cases "fst (main_flow ext st up (snd r))")
        (simp_all add: script_def)
  qed
qed

lemma ffmpeg_check_cache:
  "ffmpeg_check ext w = Inr r \<Longrightarrow> cache (snd r) = cache w"
  by (auto simp: ffmpeg_check_def set_ffmpeg_path_def Let_def say_simps split: sum.splits option.splits if_splits)

text \<open>
  With \<open>PATH\<close> set and the decoder discoverable neither before nor after the fallback, the
  check writes the warning and raises nothing, and a run with an upload is the main flow
  (staging, model load, transcription) started in the world the warning leaves, followed
  by the footer when the main flow finishes.
\<close>

lemma decoder_absence_proceeds:
  assumes "which ext (environ w) ''ffmpeg'' = None" "environ w ''PATH'' = Some old"
    "which ext ((environ w)(''PATH'' \<mapsto> ffmpeg_dir @ pathsep ext @ old)) ''ffmpeg'' = None"
  defines "w1 \<equiv> say (StWarning (''ffmpeg not detected. Whisper may fail to decode audio/video. '' @
                                    ''Please check your ffmpeg installation.''))
                      (w\<lparr>environ := (environ w)(''PATH'' \<mapsto> ffmpeg_dir @ pathsep ext @ old)\<rparr>)"
  shows "ffmpeg_check ext w = Inr (None, w1)"
    and "script ext st (Some up) w =
           (case main_flow ext st up w1 of
              (Finished, w2) \<Rightarrow> (Finished, footer None w2)
            | (Stopped, w2) \<Rightarrow> (Stopped, w2)
            | (Uncaught e, w2) \<Rightarrow> (Uncaught e, w2))"
proof -
  show c: "ffmpeg_check ext w = Inr (None, w1)"
    using assms(1-3) unfolding w1_def
    by (simp add: ffmpeg_check_def set_ffmpeg_path_def is_ffmpeg_available_def Let_def)
  show "script ext st (Some up) w =
           (case main_flow ext st up w1 of
              (Finished, w2) \<Rightarrow> (Finished, footer None w2)
            | (Stopped, w2) \<Rightarrow> (Stopped, w2)
            | (Uncaught e, w2) \<Rightarrow> (Uncaught e, w2))"
    unfolding script_def c by simp
qed

text \<open>Such a run also ends as the same run ends in which the decoder is found.\<close>

lemma decoder_absence_same_outcome:
  assumes a: "which ext (environ w) ''ffmpeg'' = None" "environ w ''PATH'' = Some old"
    "which ext ((environ w)(''PATH'' \<mapsto> ffmpeg_dir @ pathsep ext @ old)) ''ffmpeg'' = None"
  shows "fst (script ext st uploaded w) = fst (script (ext\<lparr>which := (\<lambda>env cmd. Some found)\<rparr>) st uploaded w)"
proof -
  let ?w1 = "say (StWarning (''ffmpeg not detected. Whisper may fail to decode audio/video. '' @
                                    ''Please check your ffmpeg installation.''))
                      (w\<lparr>environ := (environ w)(''PATH'' \<mapsto> ffmpeg_dir @ pathsep ext @ old)\<rparr>)"
  have c: "ffmpeg_check ext w = Inr (None, ?w1)"
    by (rule decoder_absence_proceeds(1) [OF a])
  let ?ext' = "ext\<lparr>which := (\<lambda>env cmd. Some found)\<rparr>"
  obtain r where r: "ffmpeg_check ?ext' w = Inr r"
    by (cases "ffmpeg_check ?ext' w")
      (auto simp: ffmpeg_check_def set_ffmpeg_path_def is_ffmpeg_available_def Let_def split: if_splits)
  have "cache (snd r) = cache ?w1"
    using ffmpeg_check_cache [OF r] by (simp add: say_simps)
  then have "fst (main_flow ext st up ?w1) = fst (main_flow ?ext' st up (snd r))" for up
    unfolding which_update_main_flow by (intro main_flow_fst_world) simp
  then show ?thesis
    unfolding script_fst c r by (cases uploaded) simp_all
qed

text \<open>
  Claim C8. The absence of the decoder should never by itself make a request fail: the
  check warns and the run goes on to the upload, the model and the transcription. In a
  process where the variable \<open>PATH\<close> is not set the code does not get that far: with the
  decoder absent, \<open>set_ffmpeg_path\<close> raises \<open>KeyError\<close> at line 73, before the warning is
  written and before anything is staged or loaded; the same run with the decoder present
  stages the upload, loads the model and finishes. The defect is the read of
  \<open>os.environ["PATH"]\<close> at line 24, the one of claim C9.
\<close>

theorem decoder_absence_without_path_variable:
  "which sample_externals (environ fresh_world) ''ffmpeg'' = None \<and>
   environ fresh_world ''PATH'' = None \<and>
   fst (script sample_externals sample_settings (Some sample_upload) fresh_world) =
     Uncaught (PyExn KeyError ([CHR 0x27] @ ''PATH'' @ [CHR 0x27])) \<and>
   ui (snd (script sample_externals sample_settings (Some sample_upload) fresh_world)) = [] \<and>
   ''/tmp/tmp1.mp3'' \<notin> files (snd (script sample_externals sample_settings (Some sample_upload) fresh_world)) \<and>
   loads (snd (script sample_externals sample_settings (Some sample_upload) fresh_world)) = [] \<and>
   fst (script (sample_externals\<lparr>which := (\<lambda>env cmd. Some ''C:/bin/ffmpeg.exe'')\<rparr>) sample_settings
          (Some sample_upload) fresh_world) = Finished \<and>
   loads (snd (script (sample_externals\<lparr>which := (\<lambda>env cmd. Some ''C:/bin/ffmpeg.exe'')\<rparr>) sample_settings
          (Some sample_upload) fresh_world)) = [''base'']"
  by code_simp

subsection \<open>The arguments of the transcription call\<close>

text \<open>
  The one call of \<open>model.transcribe\<close> passes the staged path, the language \<open>en\<close> and the
  temperature \<open>0.0\<close>.
\<close>

lemma transcribe_args_fixed:
  "tc_path (transcribe_args p) = p \<and> tc_language (transcribe_args p) = ''en'' \<and>
   tc_temperature (transcribe_args p) = Finite 0"
  by (simp add: transcribe_args_def float_lit_def fl64_def)

end
